theory Spec2Isabelle
  imports Complex_Main "HOL-Library.Word"
begin

section \<open>Go values used by the model\<close>

text \<open>
  A Go \<^verbatim>\<open>string\<close> is a sequence of bytes: it is modelled as \<^typ>\<open>string\<close>, whose
  characters are bytes. A Go \<^verbatim>\<open>int\<close> is a 64-bit two's complement integer: it is
  modelled as \<^typ>\<open>64 word\<close>, compared through \<^const>\<open>sint\<close>.
\<close>

type_synonym go_int = "64 word"

subsection \<open>Package strings\<close>

definition HasPrefix :: "string \<Rightarrow> string \<Rightarrow> bool" where
  "HasPrefix s p = (take (length p) s = p)"

definition HasSuffix :: "string \<Rightarrow> string \<Rightarrow> bool" where
  "HasSuffix s p = (length p \<le> length s \<and> drop (length s - length p) s = p)"

definition TrimPrefix :: "string \<Rightarrow> string \<Rightarrow> string" where
  "TrimPrefix s p = (if HasPrefix s p then drop (length p) s else s)"

fun Contains :: "string \<Rightarrow> string \<Rightarrow> bool" where
  "Contains [] sub = (sub = [])"
| "Contains (c # s) sub = (HasPrefix (c # s) sub \<or> Contains s sub)"

text \<open>
  \<^verbatim>\<open>strings.TrimRight(s, cutset)\<close> for a cutset of ASCII characters (the source uses
  \<^verbatim>\<open>"\r\n"\<close> and \<^verbatim>\<open>"/"\<close>): the trailing bytes that are in the cutset are removed.
\<close>

definition TrimRight :: "string \<Rightarrow> string \<Rightarrow> string" where
  "TrimRight s cutset = rev (dropWhile (\<lambda>c. c \<in> set cutset) (rev s))"

text \<open>
  \<^verbatim>\<open>strings.TrimSpace\<close> removes the leading and the trailing runes for which
  \<^verbatim>\<open>unicode.IsSpace\<close> holds. A rune is decoded from the front (or the back) of the
  bytes, and an invalid encoding decodes to U+FFFD, which is not a space; so a leading
  (trailing) space rune is there exactly when the bytes begin (end) with the UTF-8
  encoding of one of the space runes, listed here: U+0009 to U+000D, U+0020, U+0085,
  U+00A0, U+1680, U+2000 to U+200A, U+2028, U+2029, U+202F, U+205F and U+3000.
\<close>

definition spaceRunes :: "string list" where
  "spaceRunes =
     [[CHR 0x09], [CHR 0x0A], [CHR 0x0B], [CHR 0x0C], [CHR 0x0D], [CHR 0x20],
      [CHR 0xC2, CHR 0x85], [CHR 0xC2, CHR 0xA0],
      [CHR 0xE1, CHR 0x9A, CHR 0x80],
      [CHR 0xE2, CHR 0x80, CHR 0x80], [CHR 0xE2, CHR 0x80, CHR 0x81],
      [CHR 0xE2, CHR 0x80, CHR 0x82], [CHR 0xE2, CHR 0x80, CHR 0x83],
      [CHR 0xE2, CHR 0x80, CHR 0x84], [CHR 0xE2, CHR 0x80, CHR 0x85],
      [CHR 0xE2, CHR 0x80, CHR 0x86], [CHR 0xE2, CHR 0x80, CHR 0x87],
      [CHR 0xE2, CHR 0x80, CHR 0x88], [CHR 0xE2, CHR 0x80, CHR 0x89],
      [CHR 0xE2, CHR 0x80, CHR 0x8A],
      [CHR 0xE2, CHR 0x80, CHR 0xA8], [CHR 0xE2, CHR 0x80, CHR 0xA9],
      [CHR 0xE2, CHR 0x80, CHR 0xAF],
      [CHR 0xE2, CHR 0x81, CHR 0x9F],
      [CHR 0xE3, CHR 0x80, CHR 0x80]]"

text \<open>The number of bytes of the rune of \<open>runes\<close> that \<open>s\<close> begins with, or 0.\<close>

definition leadingLen :: "string list \<Rightarrow> string \<Rightarrow> nat" where
  "leadingLen runes s = (case find (HasPrefix s) runes of None \<Rightarrow> 0 | Some r \<Rightarrow> length r)"

function trimLeading :: "string list \<Rightarrow> string \<Rightarrow> string" where
  "trimLeading runes s =
     (if s = [] \<or> leadingLen runes s = 0 then s
      else trimLeading runes (drop (leadingLen runes s) s))"
  by pat_completeness auto
termination
  by (relation "measure (\<lambda>(runes, s). length s)") auto

declare trimLeading.simps [simp del]

definition TrimSpace :: "string \<Rightarrow> string" where
  "TrimSpace s =
     rev (trimLeading (map rev spaceRunes) (rev (trimLeading spaceRunes s)))"

text \<open>\<^verbatim>\<open>%d\<close> of \<^verbatim>\<open>fmt\<close>: the decimal digits, with a minus sign when negative.\<close>

fun digits :: "nat \<Rightarrow> string" where
  "digits n =
     (if n < 10 then [char_of (48 + n)] else digits (n div 10) @ [char_of (48 + n mod 10)])"

declare digits.simps [simp del]

definition itoa :: "int \<Rightarrow> string" where
  "itoa i = (if i < 0 then CHR ''-'' # digits (nat (- i)) else digits (nat i))"

subsection \<open>Errors\<close>

record geminiErrorPayload =
  Code :: int
  Status :: string
  Message :: string

text \<open>
  A Go \<^verbatim>\<open>error\<close> value: \<open>Errorf\<close> is \<^verbatim>\<open>fmt.Errorf\<close> with no \<^verbatim>\<open>%w\<close> (its message),
  \<open>Wrap\<close> is \<^verbatim>\<open>fmt.Errorf\<close> with a text before \<^verbatim>\<open>%w\<close> and the wrapped error,
  \<open>UpstreamError\<close> is a \<^verbatim>\<open>*geminiErrorPayload\<close>, \<open>EOF\<close> is \<^verbatim>\<open>io.EOF\<close>,
  \<open>ErrNoProgress\<close> is \<^verbatim>\<open>io.ErrNoProgress\<close>,
  \<open>ErrNilClient\<close> is the package variable of that name, and \<open>Foreign\<close> is any
  error made outside the package (by the callback, the transport or a decoder),
  told apart by its text.
\<close>

datatype error =
    Errorf string
  | Wrap string error
  | UpstreamError geminiErrorPayload
  | EOF
  | ErrNoProgress
  | ErrNilClient
  | Foreign string

text \<open>\<^verbatim>\<open>errors.Is(err, io.EOF)\<close>: the error or one it wraps is \<^verbatim>\<open>io.EOF\<close>.\<close>

fun Is_EOF :: "error \<Rightarrow> bool" where
  "Is_EOF EOF = True"
| "Is_EOF (Wrap _ e) = Is_EOF e"
| "Is_EOF _ = False"

section \<open>internal/utils: bounding boxes\<close>

text \<open>\<^verbatim>\<open>Clamp\<close> bounds \<open>v\<close> into \<open>[lo, hi]\<close>; the comparisons are Go's signed ones.\<close>

definition Clamp :: "go_int \<Rightarrow> go_int \<Rightarrow> go_int \<Rightarrow> go_int" where
  "Clamp v lo hi = (if v <s lo then lo else if hi <s v then hi else v)"

text \<open>
  The decimal library (shopspring/decimal) is not part of the repository; the model
  follows its arithmetic. A \<^verbatim>\<open>Decimal\<close> is an integer of any size, \<open>val\<close>, and a
  32-bit exponent of ten, \<open>expo\<close>; it stands for the number \<open>val \<times> 10^expo\<close>. The
  library panics when a divisor is zero and when the exponent of a product or of a
  quotient leaves the 32-bit range.
\<close>

datatype panic = DivisionByZero | ExponentOverflow | QuoRemOverflow

record Decimal =
  val :: int
  expo :: "32 word"

text \<open>The number a decimal stands for.\<close>

definition decRat :: "Decimal \<Rightarrow> rat" where
  "decRat d =
     (if 0 \<le> sint (expo d) then of_int (val d) * 10 ^ nat (sint (expo d))
      else of_int (val d) / 10 ^ nat (- sint (expo d)))"

definition inInt32 :: "int \<Rightarrow> bool" where
  "inInt32 e = (- (2 ^ 31) \<le> e \<and> e < 2 ^ 31)"

text \<open>The quotient of \<^verbatim>\<open>big.Int\<close>'s \<^verbatim>\<open>Quo\<close> and \<^verbatim>\<open>QuoRem\<close>: rounded towards zero.\<close>

definition tquot :: "int \<Rightarrow> int \<Rightarrow> int" where
  "tquot a b = sgn a * sgn b * (\<bar>a\<bar> div \<bar>b\<bar>)"

definition dec_NewFromInt :: "go_int \<Rightarrow> Decimal" where
  "dec_NewFromInt i = \<lparr>val = sint i, expo = 0\<rparr>"

definition dec_Mul :: "Decimal \<Rightarrow> Decimal \<Rightarrow> panic + Decimal" where
  "dec_Mul d d2 =
     (let e = sint (expo d) + sint (expo d2) in
      if \<not> inInt32 e then Inl ExponentOverflow
      else Inr \<lparr>val = val d * val d2, expo = word_of_int e\<rparr>)"

text \<open>
  \<^verbatim>\<open>QuoRem\<close>: the quotient with \<open>precision\<close> decimal places, rounded towards zero,
  and the remainder.
\<close>

definition dec_QuoRem :: "Decimal \<Rightarrow> Decimal \<Rightarrow> int \<Rightarrow> panic + (Decimal \<times> Decimal)" where
  "dec_QuoRem d d2 precision =
     (if val d2 = 0 then Inl DivisionByZero
      else
        let scale = - precision;
            e = sint (expo d) - sint (expo d2) - scale
        in
          if \<not> inInt32 e then Inl QuoRemOverflow
          else
            let aa = (if e < 0 then val d else val d * 10 ^ nat e);
                bb = (if e < 0 then val d2 * 10 ^ nat (- e) else val d2);
                scalerest = (if e < 0 then expo d else word_of_int scale + expo d2);
                q = tquot aa bb;
                r = aa - q * bb
            in Inr (\<lparr>val = q, expo = word_of_int scale\<rparr>, \<lparr>val = r, expo = scalerest\<rparr>))"

text \<open>
  \<^verbatim>\<open>DivRound\<close>: the quotient with \<open>precision\<close> decimal places, rounded half away from
  zero: the quotient of \<^verbatim>\<open>QuoRem\<close> moves one unit of the last place away from zero
  unless twice the remainder is less than the divisor.
\<close>

definition dec_DivRound :: "Decimal \<Rightarrow> Decimal \<Rightarrow> int \<Rightarrow> panic + Decimal" where
  "dec_DivRound d d2 precision =
     (case dec_QuoRem d d2 precision of
        Inl p \<Rightarrow> Inl p
      | Inr (q, r) \<Rightarrow>
          let r2 = \<lparr>val = 2 * \<bar>val r\<bar>, expo = expo r + word_of_int precision\<rparr> in
          if decRat r2 < \<bar>decRat d2\<bar> then Inr q
          else if sgn (val d) * sgn (val d2) < 0 then Inr (q\<lparr>val := val q - 1\<rparr>)
          else Inr (q\<lparr>val := val q + 1\<rparr>))"

definition DivisionPrecision :: int where
  "DivisionPrecision = 16"

definition dec_Div :: "Decimal \<Rightarrow> Decimal \<Rightarrow> panic + Decimal" where
  "dec_Div d d2 = dec_DivRound d d2 DivisionPrecision"

text \<open>
  \<^verbatim>\<open>IntPart\<close>: the decimal rescaled to the exponent 0, its fraction dropped, and of that
  integer the low 64 bits.
\<close>

definition dec_IntPart :: "Decimal \<Rightarrow> go_int" where
  "dec_IntPart d =
     word_of_int
       (if sint (expo d) < 0 then tquot (val d) (10 ^ nat (- sint (expo d)))
        else val d * 10 ^ nat (sint (expo d)))"

text \<open>
  The value bound by \<^verbatim>\<open>f, _ := decimal.NewFromString(s)\<close>: the parser is a parameter
  of the model; with an error it returns the zero \<^verbatim>\<open>Decimal\<close>, and the source ignores
  the error.
\<close>

definition parsed :: "(string \<Rightarrow> 'e + Decimal) \<Rightarrow> string \<Rightarrow> Decimal" where
  "parsed NewFromString s =
     (case NewFromString s of Inl _ \<Rightarrow> \<lparr>val = 0, expo = 0\<rparr> | Inr d \<Rightarrow> d)"

text \<open>The expression \<^verbatim>\<open>int(f.Mul(d).Div(scaleD).IntPart())\<close>.\<close>

definition scaled :: "Decimal \<Rightarrow> Decimal \<Rightarrow> Decimal \<Rightarrow> panic + go_int" where
  "scaled f d scaleD =
     (case dec_Mul f d of
        Inl p \<Rightarrow> Inl p
      | Inr m \<Rightarrow>
          (case dec_Div m scaleD of
             Inl p \<Rightarrow> Inl p
           | Inr q \<Rightarrow> Inr (dec_IntPart q)))"

definition DenormalizeBbox ::
  "(string \<Rightarrow> 'e + Decimal) \<Rightarrow> string \<Rightarrow> string \<Rightarrow> string \<Rightarrow> string \<Rightarrow>
     go_int \<Rightarrow> go_int \<Rightarrow> go_int \<Rightarrow> panic + (go_int \<times> go_int \<times> go_int \<times> go_int)" where
  "DenormalizeBbox NewFromString x1s y1s x2s y2s width height scale =
     (let fx1 = parsed NewFromString x1s;
          fy1 = parsed NewFromString y1s;
          fx2 = parsed NewFromString x2s;
          fy2 = parsed NewFromString y2s;
          dw = dec_NewFromInt width;
          dh = dec_NewFromInt height;
          scaleD = dec_NewFromInt scale
      in
        case scaled fx1 dw scaleD of Inl p \<Rightarrow> Inl p | Inr x1 \<Rightarrow>
        case scaled fy1 dh scaleD of Inl p \<Rightarrow> Inl p | Inr y1 \<Rightarrow>
        case scaled fx2 dw scaleD of Inl p \<Rightarrow> Inl p | Inr x2 \<Rightarrow>
        case scaled fy2 dh scaleD of Inl p \<Rightarrow> Inl p | Inr y2 \<Rightarrow>
          let (x1, x2) = (if x2 <s x1 then (x2, x1) else (x1, x2));
              (y1, y2) = (if y2 <s y1 then (y2, y1) else (y1, y2));
              maxX = width - 1;
              maxX = (if maxX <s 0 then 0 else maxX);
              maxY = height - 1;
              maxY = (if maxY <s 0 then 0 else maxY);
              x1 = Clamp x1 0 maxX;
              x2 = Clamp x2 0 maxX;
              y1 = Clamp y1 0 maxY;
              y2 = Clamp y2 0 maxY
          in Inr (x1, y1, x2, y2))"


text \<open>
  The value the claim gives a coordinate: the parsed number times the dimension over
  the scale, rounded half away from zero to 16 decimal places, and of that its integer
  part.
\<close>

definition trunc0 :: "rat \<Rightarrow> int" where
  "trunc0 q = (if q < 0 then - \<lfloor>- q\<rfloor> else \<lfloor>q\<rfloor>)"

definition roundHalfAway :: "rat \<Rightarrow> int" where
  "roundHalfAway q = (if q < 0 then - \<lfloor>- q + 1 / 2\<rfloor> else \<lfloor>q + 1 / 2\<rfloor>)"

definition scaleCoord :: "rat \<Rightarrow> int \<Rightarrow> int \<Rightarrow> int" where
  "scaleCoord v extent sc =
     trunc0 (of_int (roundHalfAway (v * of_int extent / of_int sc * 10 ^ 16)) / 10 ^ 16)"

definition coordinate :: "(string \<Rightarrow> 'e + Decimal) \<Rightarrow> string \<Rightarrow> go_int \<Rightarrow> go_int \<Rightarrow> go_int" where
  "coordinate NewFromString s extent scale =
     word_of_int (scaleCoord (decRat (parsed NewFromString s)) (sint extent) (sint scale))"

text \<open>
  The two integers that \<^verbatim>\<open>QuoRem\<close> divides when the precision is 16 and the divisor
  has the exponent 0, as the divisor \<^verbatim>\<open>scaleD\<close> of \<^verbatim>\<open>DenormalizeBbox\<close> has.
\<close>

definition quoNum :: "Decimal \<Rightarrow> int" where
  "quoNum m = (if sint (expo m) + 16 < 0 then val m else val m * 10 ^ nat (sint (expo m) + 16))"

definition quoDen :: "Decimal \<Rightarrow> int \<Rightarrow> int" where
  "quoDen m s = (if sint (expo m) + 16 < 0 then s * 10 ^ nat (- (sint (expo m) + 16)) else s)"

text \<open>
  A decimal parser that knows the strings used by the tests of the repository
  (\<^verbatim>\<open>TestDenormalizeBbox_BasicSquare\<close>, \<^verbatim>\<open>_RectFull\<close>, \<^verbatim>\<open>_OrderSwap\<close>, \<^verbatim>\<open>_Clamp\<close>,
  \<^verbatim>\<open>_MidPoints\<close>)
  and a few more, with the decimals the library parses them to.
\<close>

definition testParser :: "string \<Rightarrow> unit + Decimal" where
  "testParser s =
     (if s = ''0'' then Inr \<lparr>val = 0, expo = 0\<rparr>
      else if s = ''999'' then Inr \<lparr>val = 999, expo = 0\<rparr>
      else if s = ''800'' then Inr \<lparr>val = 800, expo = 0\<rparr>
      else if s = ''300'' then Inr \<lparr>val = 300, expo = 0\<rparr>
      else if s = ''200'' then Inr \<lparr>val = 200, expo = 0\<rparr>
      else if s = ''100'' then Inr \<lparr>val = 100, expo = 0\<rparr>
      else if s = ''500'' then Inr \<lparr>val = 500, expo = 0\<rparr>
      else if s = ''750'' then Inr \<lparr>val = 750, expo = 0\<rparr>
      else if s = ''1200'' then Inr \<lparr>val = 1200, expo = 0\<rparr>
      else if s = ''-10'' then Inr \<lparr>val = - 10, expo = 0\<rparr>
      else if s = ''2000'' then Inr \<lparr>val = 2000, expo = 0\<rparr>
      else if s = ''1500'' then Inr \<lparr>val = 1500, expo = 0\<rparr>
      else if s = ''333.335'' then Inr \<lparr>val = 333335, expo = - 3\<rparr>
      else if s = ''-0.5'' then Inr \<lparr>val = - 5, expo = - 1\<rparr>
      else if s = ''2e2'' then Inr \<lparr>val = 2, expo = 2\<rparr>
      else if s = ''0.99999999999999995'' then Inr \<lparr>val = 99999999999999995, expo = - 17\<rparr>
      else if s = ''0e2147483647'' then Inr \<lparr>val = 0, expo = 2147483647\<rparr>
      else Inl ())"

section \<open>internal/providers: the Gemini client's response side\<close>

subsection \<open>Response types\<close>

record geminiInlineData =
  MimeType :: string
  Data :: string

record geminiPart =
  Text :: string
  InlineData :: "geminiInlineData option"

record geminiContent =
  Role :: string
  Parts :: "geminiPart list"

record geminiCandidate =
  Content :: geminiContent

record geminiGenerateResponse =
  Candidates :: "geminiCandidate list"
  Error :: "geminiErrorPayload option"

text \<open>
  The struct \<^verbatim>\<open>geminiError\<close> has the single field \<^verbatim>\<open>Error *geminiErrorPayload\<close>;
  the field is named \<open>EnvelopeError\<close> here, \<open>Error\<close> being taken by the response.
\<close>

record geminiError =
  EnvelopeError :: "geminiErrorPayload option"

subsection \<open>The delta callback\<close>

text \<open>
  The callback \<^verbatim>\<open>onDelta(content, thinking)\<close> is any Go function: what it returns may
  depend on the calls made before. The model gives it the list of the calls already
  made (the trace, oldest first); every function that may call it takes the trace and
  returns the extended one, so the trace is also the record of what was delivered.
\<close>

type_synonym trace = "(string \<times> string) list"
type_synonym callback = "trace \<Rightarrow> string \<Rightarrow> string \<Rightarrow> error option"

text \<open>\<^verbatim>\<open>json.Unmarshal\<close> into a value of type \<open>'a\<close>: a parameter of the model.\<close>

type_synonym 'a unmarshal = "string \<Rightarrow> error + 'a"

subsection \<open>emitGeminiCandidates\<close>

text \<open>The inner loop, over the parts of one candidate.\<close>

fun emitParts :: "callback \<Rightarrow> geminiPart list \<Rightarrow> trace \<Rightarrow> error option \<times> trace" where
  "emitParts onDelta [] tr = (None, tr)"
| "emitParts onDelta (part # parts) tr =
     (if Text part = [] then emitParts onDelta parts tr
      else
        case onDelta tr (Text part) [] of
          Some err \<Rightarrow> (Some err, tr @ [(Text part, [])])
        | None \<Rightarrow> emitParts onDelta parts (tr @ [(Text part, [])]))"

fun emitGeminiCandidates ::
  "callback \<Rightarrow> geminiCandidate list \<Rightarrow> trace \<Rightarrow> error option \<times> trace" where
  "emitGeminiCandidates onDelta [] tr = (None, tr)"
| "emitGeminiCandidates onDelta (cand # cands) tr =
     (case emitParts onDelta (Parts (Content cand)) tr of
        (Some err, tr') \<Rightarrow> (Some err, tr')
      | (None, tr') \<Rightarrow> emitGeminiCandidates onDelta cands tr')"

subsection \<open>The server-sent-events reader\<close>

definition dispatchSSEData ::
  "geminiGenerateResponse unmarshal \<Rightarrow> callback \<Rightarrow> string \<Rightarrow> trace \<Rightarrow> error option \<times> trace" where
  "dispatchSSEData unmarshal onDelta payload tr =
     (let trimmed = TrimSpace payload in
      if trimmed = [] \<or> trimmed = ''[DONE]'' then (None, tr)
      else
        case unmarshal trimmed of
          Inl err \<Rightarrow> (Some (Wrap ''providers/gemini: decode stream chunk: '' err), tr)
        | Inr chunk \<Rightarrow>
            (case Error chunk of
               Some e \<Rightarrow> (Some (UpstreamError e), tr)
             | None \<Rightarrow> emitGeminiCandidates onDelta (Candidates chunk) tr))"

text \<open>
  \<^verbatim>\<open>processSSELine\<close> returns \<^verbatim>\<open>(done, err)\<close>; the model returns with them the
  contents of \<^verbatim>\<open>dataBuf\<close> after the call, and the trace.
\<close>

definition processSSELine ::
  "geminiGenerateResponse unmarshal \<Rightarrow> callback \<Rightarrow> string \<Rightarrow> string \<Rightarrow> trace \<Rightarrow>
     (bool \<times> error option) \<times> string \<times> trace" where
  "processSSELine unmarshal onDelta line0 dataBuf tr =
     (let line = TrimRight line0 [CHR 0x0D, CHR 0x0A] in
      if HasPrefix line ''data:'' then
        let segment = TrimSpace (TrimPrefix line ''data:'');
            dataBuf1 = (if length dataBuf > 0 then dataBuf @ [CHR 0x0A] else dataBuf)
        in ((False, None), dataBuf1 @ segment, tr)
      else if line = [] \<and> length dataBuf > 0 then
        case dispatchSSEData unmarshal onDelta dataBuf tr of
          (Some err, tr') \<Rightarrow> ((True, Some err), dataBuf, tr')
        | (None, tr') \<Rightarrow> ((False, None), [], tr')
      else ((False, None), dataBuf, tr))"

definition handleSSEReadError ::
  "geminiGenerateResponse unmarshal \<Rightarrow> callback \<Rightarrow> error \<Rightarrow> string \<Rightarrow> trace \<Rightarrow>
     error option \<times> trace" where
  "handleSSEReadError unmarshal onDelta err dataBuf tr =
     (if Is_EOF err then
        if length dataBuf = 0 then (None, tr)
        else dispatchSSEData unmarshal onDelta dataBuf tr
      else (Some (Wrap ''providers/gemini: read stream: '' err), tr))"

text \<open>
  The response body is an \<^verbatim>\<open>io.Reader\<close>: each \<^verbatim>\<open>Read\<close> call hands over the next
  chunk of the bytes of the stream (an empty chunk is a \<^verbatim>\<open>Read\<close> that returns no byte
  and no error), and after the last chunk the error \<open>final\<close> (\<^verbatim>\<open>io.EOF\<close> at the
  regular end of the body). A \<^verbatim>\<open>bufio.Reader\<close> holds the bytes it has read and not yet
  returned, and the body.
\<close>

record bufioReader =
  buffered :: string
  chunks :: "string list"
  final :: error

text \<open>The bytes of \<open>s\<close> up to and including the first \<open>delim\<close>, and the rest.\<close>

definition cutAt :: "char \<Rightarrow> string \<Rightarrow> (string \<times> string) option" where
  "cutAt delim s =
     (if delim \<in> set s
      then Some (takeWhile (\<lambda>c. c \<noteq> delim) s @ [delim], tl (dropWhile (\<lambda>c. c \<noteq> delim) s))
      else None)"

text \<open>
  \<^verbatim>\<open>reader.ReadString(delim)\<close>: reads until the first \<open>delim\<close> and returns the bytes up
  to and including it; when the body ends (or fails) before a \<open>delim\<close>, it returns the
  bytes read so far together with the body's error. \<open>fill\<close> is the loop that reads
  chunks until the buffered bytes hold a \<open>delim\<close>; \<open>n\<close> counts the empty reads since the
  last read that returned bytes, and after \<^verbatim>\<open>maxConsecutiveEmptyReads\<close> of them in a
  row the reader gives up with \<^verbatim>\<open>io.ErrNoProgress\<close>, returning the bytes read so far.
\<close>

datatype readEnd = LineEnd | BodyEnd | NoProgress

definition maxConsecutiveEmptyReads :: nat where
  "maxConsecutiveEmptyReads = 100"

fun fill ::
  "char \<Rightarrow> nat \<Rightarrow> string \<Rightarrow> string list \<Rightarrow> (string \<times> readEnd) \<times> string \<times> string list" where
  "fill delim n buf [] =
     (case cutAt delim buf of
        Some (line, rest) \<Rightarrow> ((line, LineEnd), rest, [])
      | None \<Rightarrow> ((buf, BodyEnd), [], []))"
| "fill delim n buf (c # cs) =
     (case cutAt delim buf of
        Some (line, rest) \<Rightarrow> ((line, LineEnd), rest, c # cs)
      | None \<Rightarrow>
          if c = [] then
            if maxConsecutiveEmptyReads \<le> Suc n then ((buf, NoProgress), [], cs)
            else fill delim (Suc n) buf cs
          else fill delim 0 (buf @ c) cs)"

definition ReadString :: "bufioReader \<Rightarrow> char \<Rightarrow> (string \<times> error option) \<times> bufioReader" where
  "ReadString r delim =
     (case fill delim 0 (buffered r) (chunks r) of
        ((line, ending), rest, cs) \<Rightarrow>
          ((line, case ending of
                    LineEnd \<Rightarrow> None
                  | BodyEnd \<Rightarrow> Some (final r)
                  | NoProgress \<Rightarrow> Some ErrNoProgress),
           r\<lparr>buffered := rest, chunks := cs\<rparr>))"

text \<open>The bytes a reader has still to return: the measure of the read loop.\<close>

definition unread :: "bufioReader \<Rightarrow> nat" where
  "unread r = length (buffered r) + sum_list (map length (chunks r))"

lemma cutAt_length:
  "cutAt delim s = Some (line, rest) \<Longrightarrow> length rest < length s"
proof -
  assume a: "cutAt delim s = Some (line, rest)"
  then have m: "delim \<in> set s" and r: "rest = tl (dropWhile (\<lambda>c. c \<noteq> delim) s)"
    by (auto simp: cutAt_def split: if_splits)
  from m have "dropWhile (\<lambda>c. c \<noteq> delim) s \<noteq> []" by auto
  then have "length (tl (dropWhile (\<lambda>c. c \<noteq> delim) s)) < length (dropWhile (\<lambda>c. c \<noteq> delim) s)"
    by (cases "dropWhile (\<lambda>c. c \<noteq> delim) s") auto
  also have "\<dots> \<le> length s" by (rule length_dropWhile_le)
  finally show ?thesis using r by simp
qed

lemma fill_unread:
  "fill delim n buf cs = ((line, LineEnd), rest, cs') \<Longrightarrow>
     length rest + sum_list (map length cs') < length buf + sum_list (map length cs)"
proof (induction cs arbitrary: buf n)
  case Nil
  then show ?case by (auto split: option.splits dest: cutAt_length)
next
  case (Cons c cs)
  show ?case
  proof (cases "cutAt delim buf")
    case None
    show ?thesis
    proof (cases "c = []")
      case True
      with None Cons.prems have "fill delim (Suc n) buf cs = ((line, LineEnd), rest, cs')"
        by (simp split: if_splits)
      from Cons.IH [OF this] True show ?thesis by simp
    next
      case False
      with None Cons.prems have "fill delim 0 (buf @ c) cs = ((line, LineEnd), rest, cs')"
        by simp
      from Cons.IH [OF this] show ?thesis by simp
    qed
  next
    case (Some p)
    with Cons.prems show ?thesis by (cases p) (auto dest: cutAt_length)
  qed
qed

lemma ReadString_unread:
  "ReadString r delim = ((line, None), r') \<Longrightarrow> unread r' < unread r"
  by (auto simp: ReadString_def unread_def split: prod.splits readEnd.splits dest: fill_unread)

text \<open>
  \<^verbatim>\<open>readSSEStream\<close>: the loop reads a line and hands it to \<^verbatim>\<open>processSSELine\<close>, until
  a read fails (the end of the body is a failed read) or a line ends the stream. The
  model returns the error, the trace, and the reader as the loop left it.
\<close>

function readLoop ::
  "geminiGenerateResponse unmarshal \<Rightarrow> callback \<Rightarrow> bufioReader \<Rightarrow> string \<Rightarrow> trace \<Rightarrow>
     error option \<times> trace \<times> bufioReader" where
  "readLoop unmarshal onDelta reader dataBuf tr =
     (case ReadString reader (CHR 0x0A) of
        ((line, Some err), reader') \<Rightarrow>
          (case handleSSEReadError unmarshal onDelta err dataBuf tr of
             (res, tr') \<Rightarrow> (res, tr', reader'))
      | ((line, None), reader') \<Rightarrow>
          (case processSSELine unmarshal onDelta line dataBuf tr of
             ((done, err), dataBuf', tr') \<Rightarrow>
               if done \<or> err \<noteq> None then (err, tr', reader')
               else readLoop unmarshal onDelta reader' dataBuf' tr'))"
  by pat_completeness auto
termination
  by (relation "measure (\<lambda>(unmarshal, onDelta, reader, dataBuf, tr). unread reader)")
    (auto dest: ReadString_unread [OF sym])

declare readLoop.simps [simp del]

definition readSSEStream ::
  "geminiGenerateResponse unmarshal \<Rightarrow> callback \<Rightarrow> string list \<Rightarrow> error \<Rightarrow> trace \<Rightarrow>
     error option \<times> trace \<times> bufioReader" where
  "readSSEStream unmarshal onDelta body bodyErr tr =
     (let reader = \<lparr>buffered = [], chunks = body, final = bodyErr\<rparr>;
          dataBuf = []
      in readLoop unmarshal onDelta reader dataBuf tr)"

subsection \<open>The reader as a machine over lines\<close>

text \<open>
  The lines that \<^verbatim>\<open>ReadString\<close> returns with no error, for the bytes of a body: each
  ends with its newline. The bytes after the last newline are not among them:
  \<^verbatim>\<open>ReadString\<close> returns them together with the error of the body, and
  \<^verbatim>\<open>readSSEStream\<close> does not look at them.
\<close>

function completeLines :: "string \<Rightarrow> string list" where
  "completeLines s =
     (case cutAt (CHR 0x0A) s of
        None \<Rightarrow> []
      | Some (line, rest) \<Rightarrow> line # completeLines rest)"
  by pat_completeness auto
termination
  by (relation "measure length") (auto dest: cutAt_length)

declare completeLines.simps [simp del]

text \<open>
  The line machine: the state machine of the reader, over those lines and the
  accumulation buffer. A line that begins with the data-field prefix adds its trimmed
  remainder to the buffer, after a newline when the buffer holds content; a blank line
  with a non-empty buffer dispatches the buffer and clears it; any other line is ignored;
  at the end of the input a non-empty buffer is dispatched once, and an empty one ends
  the stream with no error. A dispatch that fails ends the stream with its error, and a
  body that fails with an error \<open>fin\<close> other than the end of the input ends it with a
  transport error that wraps \<open>fin\<close>.
\<close>

fun sseMachine ::
  "geminiGenerateResponse unmarshal \<Rightarrow> callback \<Rightarrow> error \<Rightarrow> string list \<Rightarrow> string \<Rightarrow> trace \<Rightarrow>
     error option \<times> trace" where
  "sseMachine unmarshal onDelta fin [] buf tr =
     (if Is_EOF fin then
        if buf = [] then (None, tr) else dispatchSSEData unmarshal onDelta buf tr
      else (Some (Wrap ''providers/gemini: read stream: '' fin), tr))"
| "sseMachine unmarshal onDelta fin (l # ls) buf tr =
     (let line = TrimRight l [CHR 0x0D, CHR 0x0A] in
      if HasPrefix line ''data:'' then
        sseMachine unmarshal onDelta fin ls
          ((if buf = [] then [] else buf @ [CHR 0x0A]) @ TrimSpace (drop (length ''data:'') line)) tr
      else if line = [] \<and> buf \<noteq> [] then
        case dispatchSSEData unmarshal onDelta buf tr of
          (Some err, tr') \<Rightarrow> (Some err, tr')
        | (None, tr') \<Rightarrow> sseMachine unmarshal onDelta fin ls [] tr'
      else sseMachine unmarshal onDelta fin ls buf tr)"

text \<open>
  Calling the callback on a list of texts in order, with an empty thinking argument,
  until a call returns an error.
\<close>

fun deliver :: "callback \<Rightarrow> string list \<Rightarrow> trace \<Rightarrow> error option \<times> trace" where
  "deliver onDelta [] tr = (None, tr)"
| "deliver onDelta (t # ts) tr =
     (case onDelta tr t [] of
        Some err \<Rightarrow> (Some err, tr @ [(t, [])])
      | None \<Rightarrow> deliver onDelta ts (tr @ [(t, [])]))"

text \<open>The non-empty texts of the parts of the candidates, candidate by candidate.\<close>

definition partTexts :: "geminiPart list \<Rightarrow> string list" where
  "partTexts parts = filter (\<lambda>t. t \<noteq> []) (map Text parts)"

definition fragments :: "geminiCandidate list \<Rightarrow> string list" where
  "fragments cands = concat (map (\<lambda>cand. partTexts (Parts (Content cand))) cands)"

text \<open>What a function that reads a stream returns to its caller, and the trace.\<close>

definition outcome :: "error option \<times> trace \<times> bufioReader \<Rightarrow> error option \<times> trace" where
  "outcome x = (fst x, fst (snd x))"

text \<open>
  The trace \<open>tr\<close> and the returned error \<open>res\<close> stop at the first failure of the callback:
  a call that returned an error is the last call of the trace, and its error is \<open>res\<close>.
\<close>

definition failedAt :: "callback \<Rightarrow> trace \<Rightarrow> nat \<Rightarrow> error option" where
  "failedAt onDelta tr i = onDelta (take i tr) (fst (tr ! i)) (snd (tr ! i))"

text \<open>A sample decoder and sample payloads, to run the model on.\<close>

definition textPart :: "string \<Rightarrow> geminiPart" where
  "textPart t = \<lparr>Text = t, InlineData = None\<rparr>"

definition candidateOf :: "string list \<Rightarrow> geminiCandidate" where
  "candidateOf ts = \<lparr>Content = \<lparr>Role = ''model'', Parts = map textPart ts\<rparr>\<rparr>"

definition sampleUnmarshal :: "geminiGenerateResponse unmarshal" where
  "sampleUnmarshal s =
     (if s = ''{Hel}'' then Inr \<lparr>Candidates = [candidateOf [''Hel'']], Error = None\<rparr>
      else if s = ''{lo}'' then
        Inr \<lparr>Candidates = [candidateOf [''l'', [], ''o''], candidateOf [''!'']], Error = None\<rparr>
      else if s = ''{quota}'' then
        Inr \<lparr>Candidates = [candidateOf [''x'']],
             Error = Some \<lparr>Code = 429, Status = ''RESOURCE_EXHAUSTED'', Message = ''quota''\<rparr>\<rparr>
      else Inl (Foreign ''invalid character''))"

definition neverFails :: callback where
  "neverFails tr content thinking = None"

definition failsOnCall :: "nat \<Rightarrow> callback" where
  "failsOnCall n tr content thinking = (if length tr = n then Some (Foreign ''stop'') else None)"

text \<open>The bytes of the body that a reader has not returned yet.\<close>

definition remaining :: "bufioReader \<Rightarrow> string" where
  "remaining r = buffered r @ concat (chunks r)"

section \<open>internal/providers: the OpenAI client's streaming loop\<close>

text \<open>
  A chunk of the SDK's stream carries choices, each with the content of its delta. The
  stream hands over its chunks one \<^verbatim>\<open>Next\<close> at a time; when \<^verbatim>\<open>Next\<close> returns false,
  \<^verbatim>\<open>Err\<close> tells whether the stream ended or failed.
\<close>

record chunkChoice =
  DeltaContent :: string

record chatCompletionChunk =
  Choices :: "chunkChoice list"

record chunkStream =
  events :: "chatCompletionChunk list"
  Err :: "error option"

text \<open>
  The loop \<^verbatim>\<open>for stream.Next() { ... }\<close> of \<^verbatim>\<open>handleStreamingChat\<close>: an error in the
  result is one returned from inside the loop.
\<close>

fun streamLoop :: "callback \<Rightarrow> chatCompletionChunk list \<Rightarrow> trace \<Rightarrow> error option \<times> trace" where
  "streamLoop onDelta [] tr = (None, tr)"
| "streamLoop onDelta (ch # chs) tr =
     (if length (Choices ch) = 0 then streamLoop onDelta chs tr
      else
        let content = TrimSpace (DeltaContent (hd (Choices ch))) in
        if content = [] then streamLoop onDelta chs tr
        else
          case onDelta tr content [] of
            Some err \<Rightarrow> (Some err, tr @ [(content, [])])
          | None \<Rightarrow> streamLoop onDelta chs (tr @ [(content, [])]))"

text \<open>
  \<^verbatim>\<open>handleStreamingChat\<close>, given the stream that \<^verbatim>\<open>NewStreaming\<close> returned.
  \<^verbatim>\<open>formatOpenAIAPIError\<close> builds the report of a failed stream; the properties proved
  here hold whatever it returns, so it is a parameter.
\<close>

definition handleStreamingChat ::
  "(string \<Rightarrow> error \<Rightarrow> error) \<Rightarrow> callback \<Rightarrow> chunkStream \<Rightarrow> trace \<Rightarrow> error option \<times> trace" where
  "handleStreamingChat formatOpenAIAPIError onDelta stream tr =
     (case streamLoop onDelta (events stream) tr of
        (Some err, tr') \<Rightarrow> (Some err, tr')
      | (None, tr') \<Rightarrow>
          (case Err stream of
             Some err \<Rightarrow>
               (Some (formatOpenAIAPIError
                        ''providers/openai: streaming chat completion failed'' err), tr')
           | None \<Rightarrow> (None, tr')))"

text \<open>The texts the loop delivers: the trimmed content of the first choice of each chunk.\<close>

definition chunkTexts :: "chatCompletionChunk list \<Rightarrow> string list" where
  "chunkTexts chs =
     filter (\<lambda>t. t \<noteq> [])
       (map (\<lambda>ch. TrimSpace (DeltaContent (hd (Choices ch))))
          (filter (\<lambda>ch. Choices ch \<noteq> []) chs))"

text \<open>Every call of the trace returned no error.\<close>

definition cleanRun :: "callback \<Rightarrow> trace \<Rightarrow> bool" where
  "cleanRun onDelta tr = (\<forall>i<length tr. failedAt onDelta tr i = None)"

text \<open>
  A run ends well: either every call returned no error, or the last call returned the
  error \<open>res\<close> and every call before it returned none.
\<close>

definition endsRun :: "callback \<Rightarrow> trace \<Rightarrow> error option \<Rightarrow> bool" where
  "endsRun onDelta tr res =
     (cleanRun onDelta tr \<or>
      (tr \<noteq> [] \<and> cleanRun onDelta (butlast tr) \<and> res \<noteq> None \<and>
       res = failedAt onDelta tr (length tr - 1)))"

section \<open>internal/providers: requests\<close>

subsection \<open>Package net/url: escaping\<close>

text \<open>
  \<^verbatim>\<open>url.PathEscape\<close> and \<^verbatim>\<open>url.QueryEscape\<close>: a byte that need not be escaped in the
  mode stands for itself, a space becomes \<^verbatim>\<open>+\<close> in a query component, and every other
  byte becomes \<^verbatim>\<open>%XX\<close> with upper-case hexadecimal digits. Letters, digits and
  \<^verbatim>\<open>- _ . ~\<close> are never escaped; of the reserved characters \<^verbatim>\<open>$ & + , / : ; = ? @\<close> a
  path segment escapes \<^verbatim>\<open>/ ; , ?\<close> and a query component escapes all.
\<close>

datatype encoding = encodePathSegment | encodeQueryComponent

definition isAlnum :: "char \<Rightarrow> bool" where
  "isAlnum c =
     (let n = (of_char c :: nat) in
      (97 \<le> n \<and> n \<le> 122) \<or> (65 \<le> n \<and> n \<le> 90) \<or> (48 \<le> n \<and> n \<le> 57))"

definition shouldEscape :: "char \<Rightarrow> encoding \<Rightarrow> bool" where
  "shouldEscape c mode =
     (if isAlnum c then False
      else if c \<in> set ''-_.~'' then False
      else if c \<in> set ''$&+,/:;=?@'' then
        (case mode of
           encodePathSegment \<Rightarrow> c \<in> set ''/;,?''
         | encodeQueryComponent \<Rightarrow> True)
      else True)"

definition upperhex :: "nat \<Rightarrow> char" where
  "upperhex n = ''0123456789ABCDEF'' ! (n mod 16)"

definition escape :: "string \<Rightarrow> encoding \<Rightarrow> string" where
  "escape s mode =
     concat (map (\<lambda>c.
       if shouldEscape c mode then
         if c = CHR '' '' \<and> mode = encodeQueryComponent then ''+''
         else [CHR ''%'', upperhex ((of_char c :: nat) div 16), upperhex ((of_char c :: nat) mod 16)]
       else [c]) s)"

definition PathEscape :: "string \<Rightarrow> string" where
  "PathEscape s = escape s encodePathSegment"

definition QueryEscape :: "string \<Rightarrow> string" where
  "QueryEscape s = escape s encodeQueryComponent"

subsection \<open>Options of a chat call\<close>

text \<open>
  A value of type \<^verbatim>\<open>any\<close> in the option bag, by its dynamic type; \<open>AOther\<close> is a value
  of any other type. A \<^verbatim>\<open>float64\<close> is modelled as a real number: the source compares
  the sampling values with zero and passes them on.
\<close>

datatype anyval =
    AInt go_int
  | AInt32 "32 word"
  | AInt64 "64 word"
  | AFloat32 real
  | AFloat64 real
  | ANumber string
  | AString string
  | ABool bool
  | AOther

text \<open>A decoded JSON value; \<^verbatim>\<open>null\<close> decodes into the nil value of \<^verbatim>\<open>any\<close>.\<close>

datatype json =
    JNull
  | JBool bool
  | JNumber real
  | JString string
  | JArray "json list"
  | JObject "(string \<times> json) list"

definition anyOf :: "json \<Rightarrow> json option" where
  "anyOf j = (if j = JNull then None else Some j)"

text \<open>
  \<^verbatim>\<open>ChatOptions\<close>. \<open>Format\<close> is the raw JSON text (empty when nil), \<open>Images\<close> are byte
  strings, \<open>Options\<close> is the map as a list of its entries, \<open>OnDelta\<close> may be nil.
\<close>

record ChatOptions =
  Model :: string
  Prompt :: string
  SystemPrompt :: string
  Stream :: bool
  Think :: bool
  Temperature :: real
  TopP :: real
  Format :: string
  NoResponseFormat :: bool
  Images :: "string list"
  Options :: "(string \<times> anyval) list"
  OnDelta :: "callback option"

definition onDeltaOrNoop :: "callback option \<Rightarrow> callback" where
  "onDeltaOrNoop fn = (case fn of None \<Rightarrow> (\<lambda>tr content thinking. None) | Some f \<Rightarrow> f)"

subsection \<open>The Gemini request body\<close>

text \<open>The fields of \<^verbatim>\<open>geminiGenerationConfig\<close> carry their JSON names.\<close>

record geminiGenerationConfig =
  temperature :: "real option"
  topP :: "real option"
  topK :: "go_int option"
  responseMimeType :: string
  responseSchema :: "json option"

record geminiGenerateRequest =
  Contents :: "geminiContent list"
  SystemInstruction :: "geminiContent option"
  GenerationConfig :: "geminiGenerationConfig option"

text \<open>
  \<^verbatim>\<open>strconv.Atoi\<close>: an optional sign and decimal digits, at least one, whose value fits
  a 64-bit integer; anything else is an error (\<open>None\<close>).
\<close>

definition isDigit :: "char \<Rightarrow> bool" where
  "isDigit c = (48 \<le> (of_char c :: nat) \<and> (of_char c :: nat) \<le> 57)"

definition digitsValue :: "string \<Rightarrow> int" where
  "digitsValue ds = foldl (\<lambda>acc c. 10 * acc + (int (of_char c) - 48)) 0 ds"

definition Atoi :: "string \<Rightarrow> go_int option" where
  "Atoi s =
     (let neg = (s \<noteq> [] \<and> hd s = CHR ''-'');
          ds = (if s \<noteq> [] \<and> (hd s = CHR ''-'' \<or> hd s = CHR ''+'') then tl s else s)
      in
        if ds = [] \<or> \<not> list_all isDigit ds then None
        else
          let v = (if neg then - digitsValue ds else digitsValue ds) in
          if - (2 ^ 63) \<le> v \<and> v < 2 ^ 63 then Some (word_of_int v) else None)"

text \<open>
  The conversion \<^verbatim>\<open>int(t)\<close> of a floating-point value drops the fraction; the result
  for a value outside the range of \<^verbatim>\<open>int\<close> depends on the machine and is taken here
  as on amd64, where it is the least \<^verbatim>\<open>int\<close>.
\<close>

definition intOfFloat :: "real \<Rightarrow> go_int" where
  "intOfFloat x =
     (let t = (if x < 0 then - \<lfloor>- x\<rfloor> else \<lfloor>x\<rfloor>) in
      if - (2 ^ 63) \<le> t \<and> t < 2 ^ 63 then word_of_int t else word_of_int (- (2 ^ 63)))"

fun toInt :: "anyval \<Rightarrow> go_int option" where
  "toInt (AInt t) = Some t"
| "toInt (AInt32 t) = Some (signed t)"
| "toInt (AInt64 t) = Some t"
| "toInt (AFloat32 t) = Some (intOfFloat t)"
| "toInt (AFloat64 t) = Some (intOfFloat t)"
| "toInt (ANumber t) = Atoi t"
| "toInt (AString t) = Atoi (TrimSpace t)"
| "toInt _ = None"

definition extractTopK :: "(string \<times> anyval) list \<Rightarrow> go_int option" where
  "extractTopK opts =
     (if length opts = 0 then None
      else
        case (case map_of opts ''topK'' of Some v \<Rightarrow> toInt v | None \<Rightarrow> None) of
          Some i \<Rightarrow> Some i
        | None \<Rightarrow>
            (case (case map_of opts ''top_k'' of Some v \<Rightarrow> toInt v | None \<Rightarrow> None) of
               Some i \<Rightarrow> Some i
             | None \<Rightarrow> None))"

definition isEmpty :: "geminiGenerationConfig \<Rightarrow> bool" where
  "isEmpty cfg =
     (temperature cfg = None \<and> topP cfg = None \<and> topK cfg = None \<and>
      responseMimeType cfg = [] \<and> responseSchema cfg = None)"

text \<open>
  \<^verbatim>\<open>buildGenerationConfig\<close>; \<open>unmarshalAny\<close> is \<^verbatim>\<open>json.Unmarshal\<close> into a variable of
  type \<^verbatim>\<open>any\<close>. The result \<open>None\<close> is the nil pointer.
\<close>

definition buildGenerationConfig ::
  "json unmarshal \<Rightarrow> ChatOptions \<Rightarrow> geminiGenerationConfig option" where
  "buildGenerationConfig unmarshalAny opts =
     (let cfg = \<lparr>temperature = None, topP = None, topK = None,
                 responseMimeType = [], responseSchema = None\<rparr>;
          cfg = (if Temperature opts \<noteq> 0 then cfg\<lparr>temperature := Some (Temperature opts)\<rparr> else cfg);
          cfg = (if TopP opts \<noteq> 0 then cfg\<lparr>topP := Some (TopP opts)\<rparr> else cfg);
          cfg = (case extractTopK (Options opts) of
                   Some k \<Rightarrow> cfg\<lparr>topK := Some k\<rparr>
                 | None \<Rightarrow> cfg)
      in
        if NoResponseFormat opts then
          if isEmpty cfg then None else Some cfg
        else
          let cfg =
            (if length (Format opts) > 0 then
               let cfg = cfg\<lparr>responseMimeType := ''application/json''\<rparr> in
               case unmarshalAny (Format opts) of
                 Inr schema \<Rightarrow> cfg\<lparr>responseSchema := anyOf schema\<rparr>
               | Inl err \<Rightarrow> cfg
             else cfg\<lparr>responseMimeType := ''application/json''\<rparr>)
          in if isEmpty cfg then None else Some cfg)"

text \<open>
  The functions of the standard library and the transport that the Gemini client uses
  and that the model does not define: \<^verbatim>\<open>http.DetectContentType\<close>, the standard base64
  encoding, the JSON encoder of the request, \<^verbatim>\<open>json.Unmarshal\<close> into the three types
  the client decodes, the decoder of a whole response body (given its bytes and the
  error that ends it), and the failure of \<^verbatim>\<open>http.NewRequestWithContext\<close> on a URL.
\<close>

record library =
  DetectContentType :: "string \<Rightarrow> string"
  EncodeToString :: "string \<Rightarrow> string"
  Encode :: "geminiGenerateRequest \<Rightarrow> error + string"
  UnmarshalResponse :: "geminiGenerateResponse unmarshal"
  UnmarshalError :: "geminiError unmarshal"
  UnmarshalAny :: "json unmarshal"
  Decode :: "string \<Rightarrow> error \<Rightarrow> error + geminiGenerateResponse"
  NewRequestError :: "string \<Rightarrow> error option"

text \<open>The loop of \<^verbatim>\<open>buildContents\<close> over the images.\<close>

fun imageParts :: "library \<Rightarrow> string list \<Rightarrow> geminiPart list" where
  "imageParts lib [] = []"
| "imageParts lib (img # imgs) =
     (if length img = 0 then imageParts lib imgs
      else
        let mime = DetectContentType lib img;
            mime = (if \<not> HasPrefix mime ''image/'' then ''image/png'' else mime)
        in \<lparr>Text = [], InlineData = Some \<lparr>MimeType = mime, Data = EncodeToString lib img\<rparr>\<rparr>
           # imageParts lib imgs)"

definition buildContents ::
  "library \<Rightarrow> ChatOptions \<Rightarrow> error + (geminiContent list \<times> geminiContent option)" where
  "buildContents lib opts =
     (let prompt = TrimSpace (Prompt opts);
          parts = (if prompt \<noteq> [] then [\<lparr>Text = prompt, InlineData = None\<rparr>] else [])
                  @ imageParts lib (Images opts)
      in
        if length parts = 0 then Inl (Errorf ''providers/gemini: prompt or images are required'')
        else
          let contents = [\<lparr>Role = ''user'', Parts = parts\<rparr>];
              system = TrimSpace (SystemPrompt opts);
              systemInstruction =
                (if system \<noteq> [] then Some \<lparr>Role = [], Parts = [\<lparr>Text = system, InlineData = None\<rparr>]\<rparr>
                 else None)
          in Inr (contents, systemInstruction))"

definition buildRequestBody :: "library \<Rightarrow> ChatOptions \<Rightarrow> error + string" where
  "buildRequestBody lib opts =
     (case buildContents lib opts of
        Inl err \<Rightarrow> Inl err
      | Inr (contents, systemInstruction) \<Rightarrow>
          let req = \<lparr>Contents = contents, SystemInstruction = systemInstruction,
                     GenerationConfig = buildGenerationConfig (UnmarshalAny lib) opts\<rparr>
          in case Encode lib req of
               Inl err \<Rightarrow> Inl (Wrap ''providers/gemini: encode request: '' err)
             | Inr bytes \<Rightarrow> Inr bytes)"

subsection \<open>The Gemini client: construction, endpoint, authentication\<close>

record httpRequest =
  Method :: string
  URL :: string
  Header :: "(string \<times> string) list"
  Body :: string

record httpResponse =
  StatusCode :: int
  RespBody :: "string list"
  RespBodyErr :: error

text \<open>\<^verbatim>\<open>Header.Set\<close> (the keys the client sets are in canonical form) and \<^verbatim>\<open>Header.Get\<close>.\<close>

definition Header_Set :: "httpRequest \<Rightarrow> string \<Rightarrow> string \<Rightarrow> httpRequest" where
  "Header_Set req k v = req\<lparr>Header := (k, v) # filter (\<lambda>kv. fst kv \<noteq> k) (Header req)\<rparr>"

definition Header_Get :: "httpRequest \<Rightarrow> string \<Rightarrow> string option" where
  "Header_Get req k = map_of (Header req) k"

text \<open>
  The transport \<^verbatim>\<open>client.Do\<close> is a function from the request to the response or an
  error; a client that is nil is \<open>None\<close>.
\<close>

type_synonym roundTrip = "httpRequest \<Rightarrow> error + httpResponse"

record Gemini =
  client :: "roundTrip option"
  baseURL :: string
  apiKey :: string
  authType :: string

record ProviderConfig =
  APIKey :: string
  BaseURL :: string
  AuthType :: string

definition defaultGeminiBaseURL :: string where
  "defaultGeminiBaseURL = ''https://generativelanguage.googleapis.com/v1beta''"

definition geminiStreamingPath :: string where
  "geminiStreamingPath = '':streamGenerateContent''"

definition geminiNonStreamPath :: string where
  "geminiNonStreamPath = '':generateContent''"

definition httpStatusClientErr :: int where
  "httpStatusClientErr = 400"

definition browserUserAgent :: string where
  "browserUserAgent =
     ''Mozilla/5.0 (Macintosh; Intel Mac OS X 10_15_7) AppleWebKit/537.36 '' @
     ''(KHTML, like Gecko) Chrome/131.0.0.0 Safari/537.36''"

definition normalizeGeminiBaseURL :: "string \<Rightarrow> string" where
  "normalizeGeminiBaseURL base =
     (let b = TrimSpace base in
      if b = [] then defaultGeminiBaseURL
      else
        let b = TrimRight b ''/'' in
        if HasSuffix b ''/v1'' \<or> HasSuffix b ''/v1beta'' \<or> HasSuffix b ''/v1beta1'' then b
        else b @ ''/v1beta'')"

text \<open>
  \<^verbatim>\<open>NewGemini\<close>; \<open>ToLower\<close> is \<^verbatim>\<open>strings.ToLower\<close>, \<open>Quote\<close> is the quoting of the verb
  \<^verbatim>\<open>%q\<close> (\<^verbatim>\<open>strconv.Quote\<close>), and \<open>transport\<close> stands for the \<^verbatim>\<open>http.Client\<close> it creates.
\<close>

definition NewGemini ::
  "(string \<Rightarrow> string) \<Rightarrow> (string \<Rightarrow> string) \<Rightarrow> roundTrip \<Rightarrow> ProviderConfig \<Rightarrow>
     error + Gemini" where
  "NewGemini ToLower Quote transport cfg =
     (let apiKey = TrimSpace (APIKey cfg) in
      if apiKey = [] then Inl (Errorf ''providers/gemini: missing api key'')
      else
        let authType = ToLower (TrimSpace (AuthType cfg));
            authType = (if authType = [] then ''api_key'' else authType)
        in
          if authType \<noteq> ''api_key'' \<and> authType \<noteq> ''auth_token'' then
            Inl (Errorf (''providers/gemini: unsupported auth type '' @ Quote (AuthType cfg)))
          else
            let base = normalizeGeminiBaseURL (BaseURL cfg) in
            Inr \<lparr>client = Some transport, baseURL = base, apiKey = apiKey, authType = authType\<rparr>)"

definition buildEndpoint :: "Gemini \<Rightarrow> string \<Rightarrow> bool \<Rightarrow> error + string" where
  "buildEndpoint g model0 stream =
     (let model = TrimSpace model0 in
      if model = [] then Inl (Errorf ''providers/gemini: model is required'')
      else
        let escapedModel = PathEscape model;
            pathSuffix = (if stream then geminiStreamingPath else geminiNonStreamPath);
            query = (if stream then ''?alt=sse'' else []);
            base = TrimRight (baseURL g) ''/''
        in Inr (base @ ''/models/'' @ escapedModel @ pathSuffix @ query))"

definition attachAPIKey :: "Gemini \<Rightarrow> string \<Rightarrow> string" where
  "attachAPIKey g endpoint =
     (if authType g = ''auth_token'' then endpoint
      else if Contains endpoint ''?'' then endpoint @ ''&key='' @ QueryEscape (apiKey g)
      else endpoint @ ''?key='' @ QueryEscape (apiKey g))"

definition newRequest :: "library \<Rightarrow> Gemini \<Rightarrow> string \<Rightarrow> string \<Rightarrow> error + httpRequest" where
  "newRequest lib g endpoint body =
     (case NewRequestError lib (attachAPIKey g endpoint) of
        Some err \<Rightarrow> Inl (Wrap ''providers/gemini: build request: '' err)
      | None \<Rightarrow>
          let req = \<lparr>Method = ''POST'', URL = attachAPIKey g endpoint, Header = [], Body = body\<rparr>;
              req = Header_Set req ''Content-Type'' ''application/json'';
              req = Header_Set req ''User-Agent'' browserUserAgent;
              req = (if authType g = ''auth_token''
                     then Header_Set req ''Authorization'' (''Bearer '' @ apiKey g) else req)
          in Inr req)"

text \<open>
  \<^verbatim>\<open>checkGeminiResponse\<close>: \<^verbatim>\<open>io.ReadAll\<close> returns the bytes of the body read before
  its end or its failure, and the source ignores the error.
\<close>

definition checkGeminiResponse :: "library \<Rightarrow> httpResponse \<Rightarrow> error option" where
  "checkGeminiResponse lib resp =
     (if StatusCode resp < httpStatusClientErr then None
      else
        let body = concat (RespBody resp) in
        case (case UnmarshalError lib body of
                Inr apiErr \<Rightarrow> EnvelopeError apiErr
              | Inl err \<Rightarrow> None) of
          Some e \<Rightarrow> Some (UpstreamError e)
        | None \<Rightarrow>
            Some (Errorf (''providers/gemini: http '' @ itoa (StatusCode resp) @ '': ''
                          @ TrimSpace body)))"

text \<open>
  \<^verbatim>\<open>stream\<close> and \<^verbatim>\<open>nonStream\<close>. They return the error, the trace, and the requests
  handed to the transport.
\<close>

definition stream ::
  "library \<Rightarrow> Gemini \<Rightarrow> roundTrip \<Rightarrow> string \<Rightarrow> string \<Rightarrow> callback \<Rightarrow> trace \<Rightarrow>
     error option \<times> trace \<times> httpRequest list" where
  "stream lib g do endpoint body onDelta tr =
     (case newRequest lib g endpoint body of
        Inl err \<Rightarrow> (Some err, tr, [])
      | Inr req0 \<Rightarrow>
          let req = Header_Set req0 ''Accept'' ''text/event-stream'' in
          case do req of
            Inl err \<Rightarrow> (Some (Wrap ''providers/gemini: stream request failed: '' err), tr, [req])
          | Inr resp \<Rightarrow>
              (case checkGeminiResponse lib resp of
                 Some err \<Rightarrow> (Some err, tr, [req])
               | None \<Rightarrow>
                   (case readSSEStream (UnmarshalResponse lib) onDelta
                           (RespBody resp) (RespBodyErr resp) tr of
                      (res, tr', reader) \<Rightarrow> (res, tr', [req]))))"

definition nonStream ::
  "library \<Rightarrow> Gemini \<Rightarrow> roundTrip \<Rightarrow> string \<Rightarrow> string \<Rightarrow> callback \<Rightarrow> trace \<Rightarrow>
     error option \<times> trace \<times> httpRequest list" where
  "nonStream lib g do endpoint body onDelta tr =
     (case newRequest lib g endpoint body of
        Inl err \<Rightarrow> (Some err, tr, [])
      | Inr req0 \<Rightarrow>
          let req = Header_Set req0 ''Accept'' ''application/json'' in
          case do req of
            Inl err \<Rightarrow> (Some (Wrap ''providers/gemini: request failed: '' err), tr, [req])
          | Inr resp \<Rightarrow>
              (case checkGeminiResponse lib resp of
                 Some err \<Rightarrow> (Some err, tr, [req])
               | None \<Rightarrow>
                   (case Decode lib (concat (RespBody resp)) (RespBodyErr resp) of
                      Inl err \<Rightarrow> (Some (Wrap ''providers/gemini: decode response: '' err), tr, [req])
                    | Inr out \<Rightarrow>
                        (case emitGeminiCandidates onDelta (Candidates out) tr of
                           (res, tr') \<Rightarrow> (res, tr', [req])))))"

text \<open>\<^verbatim>\<open>Gemini.Chat\<close>; a nil receiver is \<open>None\<close>.\<close>

definition Gemini_Chat ::
  "library \<Rightarrow> Gemini option \<Rightarrow> ChatOptions \<Rightarrow> trace \<Rightarrow>
     error option \<times> trace \<times> httpRequest list" where
  "Gemini_Chat lib g0 opts tr =
     (case (case g0 of None \<Rightarrow> None
            | Some g \<Rightarrow> (case client g of None \<Rightarrow> None | Some do \<Rightarrow> Some (g, do))) of
        None \<Rightarrow> (Some (Errorf ''providers/gemini: nil client''), tr, [])
      | Some (g, do) \<Rightarrow>
          if TrimSpace (Model opts) = [] then
            (Some (Errorf ''providers/gemini: model is required''), tr, [])
          else
            case buildRequestBody lib opts of
              Inl err \<Rightarrow> (Some err, tr, [])
            | Inr body \<Rightarrow>
                (case buildEndpoint g (Model opts) (Stream opts) of
                   Inl err \<Rightarrow> (Some err, tr, [])
                 | Inr endpoint \<Rightarrow>
                     let onDelta = onDeltaOrNoop (OnDelta opts) in
                     if Stream opts then stream lib g do endpoint body onDelta tr
                     else nonStream lib g do endpoint body onDelta tr))"

subsection \<open>The Ollama client\<close>

text \<open>
  The request and the response of the Ollama SDK (\<^verbatim>\<open>api.ChatRequest\<close>,
  \<^verbatim>\<open>api.ChatResponse\<close>), with the fields the client sets and reads. The field
  \<open>reqStream\<close> is a pointer: \<open>None\<close> is nil. \<open>reqThink\<close> is the value inside
  \<^verbatim>\<open>&api.ThinkValue{Value: opts.Think}\<close>.
\<close>

record apiMessage =
  msgRole :: string
  msgContent :: string
  msgImages :: "string list"

record apiChatRequest =
  reqModel :: string
  reqMessages :: "apiMessage list"
  reqThink :: bool
  reqOptions :: "(string \<times> anyval) list"
  reqFormat :: string
  reqStream :: "bool option"

record apiChatResponse =
  respContent :: string
  respThinking :: string

text \<open>
  The SDK's \<^verbatim>\<open>client.Chat(ctx, req, fn)\<close> sends the request and calls \<open>fn\<close> on the
  responses; it is a parameter of the model, given the request, the response function
  and the trace. A nil client is \<open>None\<close>.
\<close>

type_synonym responseFunc = "apiChatResponse \<Rightarrow> trace \<Rightarrow> error option \<times> trace"
type_synonym apiClient = "apiChatRequest \<Rightarrow> responseFunc \<Rightarrow> trace \<Rightarrow> error option \<times> trace"

record Ollama =
  ollamaClient :: "apiClient option"

definition toAPIImages :: "string list \<Rightarrow> string list" where
  "toAPIImages imgs = (if length imgs = 0 then [] else map (\<lambda>b. b) imgs)"

text \<open>Storing a value under a key of a map kept as the list of its entries.\<close>

definition mapStore :: "(string \<times> anyval) list \<Rightarrow> string \<Rightarrow> anyval \<Rightarrow> (string \<times> anyval) list" where
  "mapStore m k v = (k, v) # filter (\<lambda>kv. fst kv \<noteq> k) m"

definition mergeOptions :: "ChatOptions \<Rightarrow> (string \<times> anyval) list" where
  "mergeOptions opts =
     (let m = [(''enable_thinking'', ABool (Think opts))];
          m = (if Temperature opts \<noteq> 0 then mapStore m ''temperature'' (AFloat64 (Temperature opts)) else m);
          m = (if TopP opts \<noteq> 0 then mapStore m ''top_p'' (AFloat64 (TopP opts)) else m)
      in foldl (\<lambda>m kv. mapStore m (fst kv) (snd kv)) m (Options opts))"

definition ensureFormat :: "string \<Rightarrow> string" where
  "ensureFormat f = (if length f = 0 then [CHR 0x22] @ ''json'' @ [CHR 0x22] else f)"

definition streamPtr :: "bool \<Rightarrow> bool option" where
  "streamPtr s = (if s then None else Some False)"

text \<open>
  The request that \<^verbatim>\<open>Ollama.Chat\<close> builds (the messages, the merged options, the
  format and the request value), and the response function it hands to the SDK.
\<close>

definition chatRequest :: "ChatOptions \<Rightarrow> apiChatRequest" where
  "chatRequest opts =
     (let system = TrimSpace (SystemPrompt opts);
          messages = (if system \<noteq> []
                      then [\<lparr>msgRole = ''system'', msgContent = system, msgImages = []\<rparr>] else []);
          imgs = toAPIImages (Images opts);
          userMsg = \<lparr>msgRole = ''user'', msgContent = Prompt opts,
                     msgImages = (if length imgs > 0 then imgs else [])\<rparr>;
          messages = messages @ [userMsg];
          merged = mergeOptions opts;
          format = ensureFormat (Format opts)
      in \<lparr>reqModel = Model opts, reqMessages = messages, reqThink = Think opts,
          reqOptions = merged, reqFormat = format, reqStream = streamPtr (Stream opts)\<rparr>)"

definition respFunc :: "ChatOptions \<Rightarrow> responseFunc" where
  "respFunc opts resp tr =
     (let onDelta = onDeltaOrNoop (OnDelta opts) in
      (onDelta tr (respContent resp) (respThinking resp),
       tr @ [(respContent resp, respThinking resp)]))"

text \<open>
  \<^verbatim>\<open>Ollama.Chat\<close>; a nil receiver is \<open>None\<close>. The result carries the requests handed
  to the SDK.
\<close>

definition Ollama_Chat ::
  "Ollama option \<Rightarrow> ChatOptions \<Rightarrow> trace \<Rightarrow> error option \<times> trace \<times> apiChatRequest list" where
  "Ollama_Chat o0 opts tr =
     (case (case o0 of None \<Rightarrow> None | Some ol \<Rightarrow> ollamaClient ol) of
        None \<Rightarrow> (Some ErrNilClient, tr, [])
      | Some chat \<Rightarrow>
          let req = chatRequest opts in
          case chat req (respFunc opts) tr of (res, tr') \<Rightarrow> (res, tr', [req]))"

subsection \<open>The OpenAI client\<close>

datatype contentPart = TextContentPart string | ImageContentPart string

datatype messageParam = OfSystem string | OfUser "contentPart list"

text \<open>
  The response format union: JSON object mode, or a JSON schema with its name, its
  strict flag and the schema value.
\<close>

datatype responseFormat = OfJSONObject | OfJSONSchema string bool "json option"

text \<open>\<open>paramResponseFormat\<close> is \<open>None\<close> when the field is left unset.\<close>

record chatCompletionNewParams =
  paramMessages :: "messageParam list"
  paramModel :: string
  paramTemperature :: real
  paramTopP :: real
  paramResponseFormat :: "responseFormat option"

text \<open>A completion, as the contents of the messages of its choices.\<close>

record chatCompletion =
  choiceContents :: "string list"

text \<open>The two calls of the SDK the client makes; a nil receiver is \<open>None\<close>.\<close>

record OpenAI =
  New :: "chatCompletionNewParams \<Rightarrow> error + chatCompletion"
  NewStreaming :: "chatCompletionNewParams \<Rightarrow> chunkStream"

definition toResponseFormat :: "json unmarshal \<Rightarrow> string \<Rightarrow> responseFormat" where
  "toResponseFormat unmarshalAny raw =
     (if length raw = 0 then OfJSONObject
      else
        let trim = TrimSpace raw in
        if trim = [CHR 0x22] @ ''json'' @ [CHR 0x22] \<or> trim = ''json'' then OfJSONObject
        else
          case unmarshalAny raw of
            Inr schema \<Rightarrow> OfJSONSchema ''dino_schema'' True (anyOf schema)
          | Inl err \<Rightarrow> OfJSONObject)"

text \<open>The loop of \<^verbatim>\<open>OpenAI.Chat\<close> over the images.\<close>

definition imageURLParts :: "library \<Rightarrow> string list \<Rightarrow> contentPart list" where
  "imageURLParts lib imgs =
     map (\<lambda>img.
       let mime = DetectContentType lib img;
           mime = (if \<not> HasPrefix mime ''image/'' then ''image/png'' else mime);
           dataURL = ''data:'' @ mime @ '';base64,'' @ EncodeToString lib img
       in ImageContentPart dataURL) imgs"

text \<open>
  The parameters that \<^verbatim>\<open>OpenAI.Chat\<close> builds: the content parts, the messages, the
  sampling values and, unless it is suppressed, the response format.
\<close>

definition chatParams :: "library \<Rightarrow> ChatOptions \<Rightarrow> chatCompletionNewParams" where
  "chatParams lib opts =
     (let parts = [TextContentPart (TrimSpace (Prompt opts))] @ imageURLParts lib (Images opts);
          system = TrimSpace (SystemPrompt opts);
          messages = (if system \<noteq> [] then [OfSystem system] else []) @ [OfUser parts];
          params = \<lparr>paramMessages = messages, paramModel = Model opts,
                    paramTemperature = Temperature opts, paramTopP = TopP opts,
                    paramResponseFormat = None\<rparr>
      in if \<not> NoResponseFormat opts
         then params\<lparr>paramResponseFormat :=
                Some (toResponseFormat (UnmarshalAny lib) (Format opts))\<rparr>
         else params)"

text \<open>
  \<^verbatim>\<open>OpenAI.Chat\<close>. The result carries the parameters handed to the SDK;
  \<^verbatim>\<open>formatOpenAIAPIError\<close> is a parameter, as in \<open>handleStreamingChat\<close>.
\<close>

definition OpenAI_Chat ::
  "library \<Rightarrow> (string \<Rightarrow> error \<Rightarrow> error) \<Rightarrow> OpenAI option \<Rightarrow> ChatOptions \<Rightarrow> trace \<Rightarrow>
     error option \<times> trace \<times> chatCompletionNewParams list" where
  "OpenAI_Chat lib formatOpenAIAPIError o0 opts tr =
     (case o0 of
        None \<Rightarrow> (Some (Errorf ''providers/openai: nil client''), tr, [])
      | Some oa \<Rightarrow>
          let params = chatParams lib opts;
              onDelta = onDeltaOrNoop (OnDelta opts)
          in
            if Stream opts then
              case handleStreamingChat formatOpenAIAPIError onDelta (NewStreaming oa params) tr of
                (res, tr') \<Rightarrow> (res, tr', [params])
            else
              case New oa params of
                Inl err \<Rightarrow>
                  (Some (formatOpenAIAPIError ''providers/openai: chat completion failed'' err),
                   tr, [params])
              | Inr resp \<Rightarrow>
                  if length (choiceContents resp) = 0 then
                    (Some (Errorf ''providers/openai: empty choices''), tr, [params])
                  else
                    let content = TrimSpace (hd (choiceContents resp)) in
                    (onDelta tr content [], tr @ [(content, [])], [params]))"

subsection \<open>Sample inputs for the three clients\<close>

definition sampleLibrary :: library where
  "sampleLibrary =
     \<lparr>DetectContentType = (\<lambda>b. ''image/png''),
      EncodeToString = (\<lambda>b. ''QUJD''),
      Encode = (\<lambda>req. Inr ''{}''),
      UnmarshalResponse = sampleUnmarshal,
      UnmarshalError = (\<lambda>s.
         if s = ''{quota}'' then
           Inr \<lparr>EnvelopeError = Some \<lparr>Code = 429, Status = ''RESOURCE_EXHAUSTED'', Message = ''quota''\<rparr>\<rparr>
         else if s = ''{}'' then Inr \<lparr>EnvelopeError = None\<rparr>
         else Inl (Foreign ''invalid character'')),
      UnmarshalAny = (\<lambda>s. if s = ''{}'' then Inr (JObject []) else Inl (Foreign ''invalid character'')),
      Decode = (\<lambda>s fin. sampleUnmarshal s),
      NewRequestError = (\<lambda>u. None)\<rparr>"

definition sampleOptions :: ChatOptions where
  "sampleOptions =
     \<lparr>Model = ''m'', Prompt = ''hello'', SystemPrompt = [], Stream = False, Think = False,
      Temperature = 0, TopP = 0, Format = [], NoResponseFormat = False, Images = [],
      Options = [], OnDelta = None\<rparr>"

text \<open>A transport that answers every request with status 200 and the body \<^verbatim>\<open>{Hel}\<close>.\<close>

definition sampleTransport :: roundTrip where
  "sampleTransport req = Inr \<lparr>StatusCode = 200, RespBody = [''{Hel}''], RespBodyErr = EOF\<rparr>"

definition sampleGemini :: "string \<Rightarrow> Gemini" where
  "sampleGemini auth =
     \<lparr>client = Some sampleTransport, baseURL = ''https://h/v1beta'', apiKey = ''k 1'',
      authType = auth\<rparr>"

text \<open>An Ollama SDK that answers every request with one response.\<close>

definition sampleOllama :: Ollama where
  "sampleOllama =
     \<lparr>ollamaClient = Some (\<lambda>req fn tr. fn \<lparr>respContent = ''ok'', respThinking = []\<rparr> tr)\<rparr>"

text \<open>An OpenAI SDK that answers every request with one choice.\<close>

definition sampleOpenAI :: OpenAI where
  "sampleOpenAI =
     \<lparr>New = (\<lambda>params. Inr \<lparr>choiceContents = ['' ok '']\<rparr>),
      NewStreaming = (\<lambda>params. \<lparr>events = [\<lparr>Choices = [\<lparr>DeltaContent = ''ok''\<rparr>]\<rparr>], Err = None\<rparr>)\<rparr>"

definition sampleConfig :: ProviderConfig where
  "sampleConfig = \<lparr>APIKey = '' k 1 '', BaseURL = '' https://h// '', AuthType = []\<rparr>"


text \<open>A transport that answers every request with status 429 and a structured error.\<close>

definition quotaTransport :: roundTrip where
  "quotaTransport req = Inr \<lparr>StatusCode = 429, RespBody = [''{quota}''], RespBodyErr = EOF\<rparr>"

section \<open>Properties of the Gemini client's stream reader\<close>

lemma deliver_append:
  "deliver cb (xs @ ys) tr =
     (case deliver cb xs tr of (Some e, tr') \<Rightarrow> (Some e, tr') | (None, tr') \<Rightarrow> deliver cb ys tr')"
  by (induction xs arbitrary: tr) (auto split: option.splits)

lemma emitParts_deliver: "emitParts cb parts tr = deliver cb (partTexts parts) tr"
  by (induction parts arbitrary: tr) (auto simp: partTexts_def split: option.splits)

lemma emitGeminiCandidates_deliver:
  "emitGeminiCandidates cb cands tr = deliver cb (fragments cands) tr"
proof (induction cands arbitrary: tr)
  case Nil
  show ?case by (simp add: fragments_def)
next
  case (Cons cand cands)
  have f: "fragments (cand # cands) = partTexts (Parts (Content cand)) @ fragments cands"
    by (simp add: fragments_def)
  show ?case
    by (simp add: f deliver_append emitParts_deliver Cons.IH split: prod.splits option.splits)
qed

lemma cutAt_append:
  "cutAt d buf = Some (l, r) \<Longrightarrow> cutAt d (buf @ x) = Some (l, r @ x)"
  by (auto simp: cutAt_def takeWhile_append1 dropWhile_append1 split: if_splits)

lemma cutAt_None: "cutAt d buf = None \<longleftrightarrow> d \<notin> set buf"
  by (simp add: cutAt_def)

lemma fill_found:
  "fill d n buf cs = ((line, LineEnd), rest, cs') \<Longrightarrow>
     cutAt d (buf @ concat cs) = Some (line, rest @ concat cs') \<and> set cs' \<subseteq> set cs"
proof (induction cs arbitrary: buf n)
  case Nil
  then show ?case by (auto split: option.splits)
next
  case (Cons c cs)
  show ?case
  proof (cases "cutAt d buf")
    case None
    show ?thesis
    proof (cases "c = []")
      case True
      with None Cons.prems have "fill d (Suc n) buf cs = ((line, LineEnd), rest, cs')"
        by (simp split: if_splits)
      from Cons.IH [OF this] True show ?thesis by auto
    next
      case False
      with None Cons.prems have "fill d 0 (buf @ c) cs = ((line, LineEnd), rest, cs')" by simp
      from Cons.IH [OF this] show ?thesis by auto
    qed
  next
    case (Some p)
    obtain l r where p: "p = (l, r)" by (cases p)
    from Some p Cons.prems have "l = line" "r = rest" "cs' = c # cs" by auto
    with Some p cutAt_append [of d buf l r "concat (c # cs)"] show ?thesis by simp
  qed
qed

lemma fill_end:
  "fill d n buf cs = ((line, BodyEnd), rest, cs') \<Longrightarrow> cutAt d (buf @ concat cs) = None"
proof (induction cs arbitrary: buf n)
  case Nil
  then show ?case by (auto split: option.splits)
next
  case (Cons c cs)
  show ?case
  proof (cases "cutAt d buf")
    case None
    show ?thesis
    proof (cases "c = []")
      case True
      with None Cons.prems have "fill d (Suc n) buf cs = ((line, BodyEnd), rest, cs')"
        by (simp split: if_splits)
      from Cons.IH [OF this] True show ?thesis by simp
    next
      case False
      with None Cons.prems have "fill d 0 (buf @ c) cs = ((line, BodyEnd), rest, cs')" by simp
      from Cons.IH [OF this] show ?thesis by simp
    qed
  next
    case (Some p)
    with Cons.prems show ?thesis by (cases p) auto
  qed
qed

text \<open>A body whose reads all return bytes never makes the reader give up.\<close>

lemma fill_progress:
  "[] \<notin> set cs \<Longrightarrow> fill d n buf cs \<noteq> ((line, NoProgress), rest, cs')"
proof (induction cs arbitrary: buf n)
  case Nil
  then show ?case by (auto split: option.splits)
next
  case (Cons c cs)
  then have c: "c \<noteq> []" and cs: "[] \<notin> set cs" by auto
  show ?case
  proof (cases "cutAt d buf")
    case None
    with c Cons.IH [OF cs, of 0 "buf @ c"] show ?thesis by simp
  next
    case (Some p)
    then show ?thesis by (cases p) auto
  qed
qed

lemma ReadString_line:
  "ReadString r d = ((line, None), r') \<Longrightarrow>
     cutAt d (remaining r) = Some (line, remaining r') \<and> final r' = final r \<and>
     set (chunks r') \<subseteq> set (chunks r)"
proof -
  assume a: "ReadString r d = ((line, None), r')"
  obtain l e rest cs where f: "fill d 0 (buffered r) (chunks r) = ((l, e), rest, cs)"
    by (metis prod.exhaust)
  with a have e: "e = LineEnd" and l: "l = line" and r': "r' = r\<lparr>buffered := rest, chunks := cs\<rparr>"
    by (auto simp: ReadString_def split: readEnd.splits)
  from fill_found [OF f [unfolded e l]] r' show ?thesis
    by (simp add: remaining_def)
qed

lemma ReadString_end:
  "[] \<notin> set (chunks r) \<Longrightarrow> ReadString r d = ((line, Some err), r') \<Longrightarrow>
     cutAt d (remaining r) = None \<and> err = final r"
  by (auto simp: ReadString_def remaining_def fill_progress
      split: prod.splits readEnd.splits dest: fill_end)

lemma sseMachine_step:
  "sseMachine unm cb fin (l # ls) buf tr =
     (case processSSELine unm cb l buf tr of
        ((dn, err), buf', tr') \<Rightarrow>
          if dn \<or> err \<noteq> None then (err, tr') else sseMachine unm cb fin ls buf' tr')"
proof (cases "HasPrefix (TrimRight l [CHR 0x0D, CHR 0x0A]) ''data:''")
  case True
  then show ?thesis
    by (simp add: processSSELine_def Let_def TrimPrefix_def)
next
  case False
  show ?thesis
  proof (cases "TrimRight l [CHR 0x0D, CHR 0x0A] = [] \<and> buf \<noteq> []")
    case True
    with False show ?thesis
      by (auto simp: processSSELine_def Let_def split: prod.splits option.splits)
  next
    case False
    with \<open>\<not> HasPrefix (TrimRight l [CHR 0x0D, CHR 0x0A]) ''data:''\<close> show ?thesis
      by (auto simp: processSSELine_def Let_def)
  qed
qed

lemma readLoop_machine:
  "[] \<notin> set (chunks r) \<Longrightarrow>
     outcome (readLoop unm cb r buf tr) =
       sseMachine unm cb (final r) (completeLines (remaining r)) buf tr"
proof (induction unm cb r buf tr rule: readLoop.induct)
  case (1 unm cb r buf tr)
  obtain line e r' where rs: "ReadString r (CHR 0x0A) = ((line, e), r')"
    by (metis prod.exhaust)
  show ?case
  proof (cases e)
    case (Some err)
    with rs have c: "cutAt (CHR 0x0A) (remaining r) = None" and e: "err = final r"
      using ReadString_end [OF "1.prems", of "CHR 0x0A" line err r'] by auto
    have cl: "completeLines (remaining r) = []"
      by (subst completeLines.simps) (simp add: c)
    show ?thesis
      by (subst readLoop.simps)
        (simp add: rs Some e cl outcome_def handleSSEReadError_def split: prod.splits)
  next
    case None
    with rs have c: "cutAt (CHR 0x0A) (remaining r) = Some (line, remaining r')"
      and f: "final r' = final r" and sub: "set (chunks r') \<subseteq> set (chunks r)"
      using ReadString_line [of r "CHR 0x0A" line r'] by auto
    from sub "1.prems" have ne: "[] \<notin> set (chunks r')" by auto
    have cl: "completeLines (remaining r) = line # completeLines (remaining r')"
      by (subst completeLines.simps) (simp add: c)
    obtain dn err buf' tr' where p: "processSSELine unm cb line buf tr = ((dn, err), buf', tr')"
      by (metis prod.exhaust)
    show ?thesis
    proof (cases "dn \<or> err \<noteq> None")
      case True
      then show ?thesis
        by (subst readLoop.simps)
          (simp add: rs None p cl sseMachine_step outcome_def del: sseMachine.simps)
    next
      case False
      have ih: "outcome (readLoop unm cb r' buf' tr') =
                  sseMachine unm cb (final r') (completeLines (remaining r')) buf' tr'"
        using "1.IH" rs None p False ne by auto
      show ?thesis
        using False
        by (subst readLoop.simps)
          (simp add: rs None p cl sseMachine_step ih f del: sseMachine.simps)
    qed
  qed
qed

lemma readSSEStream_machine:
  "[] \<notin> set body \<Longrightarrow>
     outcome (readSSEStream unm cb body fin tr) =
       sseMachine unm cb fin (completeLines (concat body)) [] tr"
  by (simp add: readSSEStream_def readLoop_machine remaining_def)

subsection \<open>Runs of the callback\<close>

lemma failedAt_append: "i < length tr \<Longrightarrow> failedAt cb (tr @ x) i = failedAt cb tr i"
  by (simp add: failedAt_def nth_append)

lemma cleanRun_Nil: "cleanRun cb []"
  by (simp add: cleanRun_def)

lemma cleanRun_snoc: "cleanRun cb (tr @ [(c, t)]) \<longleftrightarrow> cleanRun cb tr \<and> cb tr c t = None"
proof -
  have last: "failedAt cb (tr @ [(c, t)]) (length tr) = cb tr c t"
    by (simp add: failedAt_def)
  have "cleanRun cb (tr @ [(c, t)]) \<longleftrightarrow>
          (\<forall>i<length tr. failedAt cb (tr @ [(c, t)]) i = None) \<and>
          failedAt cb (tr @ [(c, t)]) (length tr) = None"
    by (auto simp: cleanRun_def less_Suc_eq)
  then show ?thesis
    by (simp add: last failedAt_append cleanRun_def)
qed

lemma endsRun_failed:
  "cleanRun cb tr \<Longrightarrow> cb tr c t = Some e \<Longrightarrow> endsRun cb (tr @ [(c, t)]) (Some e)"
  by (simp add: endsRun_def failedAt_def)

lemma deliver_run:
  "cleanRun cb tr0 \<Longrightarrow> deliver cb ts tr0 = (res, tr) \<Longrightarrow>
     endsRun cb tr res \<and> (res = None \<longrightarrow> cleanRun cb tr)"
proof (induction ts arbitrary: tr0)
  case Nil
  then show ?case by (simp add: endsRun_def)
next
  case (Cons t ts)
  show ?case
  proof (cases "cb tr0 t []")
    case None
    with Cons.prems have c: "cleanRun cb (tr0 @ [(t, [])])"
      and d: "deliver cb ts (tr0 @ [(t, [])]) = (res, tr)"
      by (simp_all add: cleanRun_snoc)
    from Cons.IH [OF c d] show ?thesis .
  next
    case (Some e)
    with Cons.prems have "res = Some e" "tr = tr0 @ [(t, [])]" by simp_all
    with endsRun_failed [OF Cons.prems(1) Some] show ?thesis by simp
  qed
qed

lemma dispatchSSEData_eq:
  "dispatchSSEData unm cb payload tr =
     (if TrimSpace payload = [] \<or> TrimSpace payload = ''[DONE]'' then (None, tr)
      else
        case unm (TrimSpace payload) of
          Inl err \<Rightarrow> (Some (Wrap ''providers/gemini: decode stream chunk: '' err), tr)
        | Inr chunk \<Rightarrow>
            (case Error chunk of
               Some e \<Rightarrow> (Some (UpstreamError e), tr)
             | None \<Rightarrow> deliver cb (fragments (Candidates chunk)) tr))"
  by (simp add: dispatchSSEData_def Let_def emitGeminiCandidates_deliver
      split: sum.splits option.splits)

lemma dispatch_run:
  "cleanRun cb tr0 \<Longrightarrow> dispatchSSEData unm cb payload tr0 = (res, tr) \<Longrightarrow>
     endsRun cb tr res \<and> (res = None \<longrightarrow> cleanRun cb tr)"
  by (auto simp: dispatchSSEData_eq endsRun_def split: if_splits sum.splits option.splits
      dest: deliver_run)

lemma processSSELine_run:
  "cleanRun cb tr0 \<Longrightarrow> processSSELine unm cb l buf tr0 = ((dn, err), buf', tr) \<Longrightarrow>
     endsRun cb tr err \<and> (err = None \<longrightarrow> cleanRun cb tr)"
proof -
  assume c: "cleanRun cb tr0" and p: "processSSELine unm cb l buf tr0 = ((dn, err), buf', tr)"
  let ?line = "TrimRight l [CHR 0x0D, CHR 0x0A]"
  show ?thesis
  proof (cases "\<not> HasPrefix ?line ''data:'' \<and> ?line = [] \<and> buf \<noteq> []")
    case True
    obtain r1 t1 where d: "dispatchSSEData unm cb buf tr0 = (r1, t1)"
      by (cases "dispatchSSEData unm cb buf tr0")
    from True d p have "err = r1" "tr = t1"
      by (auto simp: processSSELine_def Let_def split: option.splits)
    with dispatch_run [OF c d] show ?thesis by simp
  next
    case False
    with p have "err = None" "tr = tr0"
      by (auto simp: processSSELine_def Let_def split: if_splits)
    with c show ?thesis by (simp add: endsRun_def)
  qed
qed

lemma handleSSEReadError_run:
  "cleanRun cb tr0 \<Longrightarrow> handleSSEReadError unm cb e buf tr0 = (res, tr) \<Longrightarrow>
     endsRun cb tr res \<and> (res = None \<longrightarrow> cleanRun cb tr)"
  by (auto simp: handleSSEReadError_def endsRun_def split: if_splits dest: dispatch_run)

lemma readLoop_run:
  "cleanRun cb tr0 \<Longrightarrow> readLoop unm cb r buf tr0 = (res, tr, r') \<Longrightarrow>
     endsRun cb tr res \<and> (res = None \<longrightarrow> cleanRun cb tr)"
proof (induction unm cb r buf tr0 rule: readLoop.induct)
  case (1 unm cb r buf tr0)
  obtain line e r1 where rs: "ReadString r (CHR 0x0A) = ((line, e), r1)"
    by (metis prod.exhaust)
  show ?case
  proof (cases e)
    case (Some err)
    obtain r2 t2 where h: "handleSSEReadError unm cb err buf tr0 = (r2, t2)"
      by (cases "handleSSEReadError unm cb err buf tr0")
    from "1.prems"(2) rs Some h have "res = r2" "tr = t2"
      by (subst (asm) readLoop.simps, simp)+
    with handleSSEReadError_run [OF "1.prems"(1) h] show ?thesis by simp
  next
    case None
    obtain dn err buf' t1 where p: "processSSELine unm cb line buf tr0 = ((dn, err), buf', t1)"
      by (metis prod.exhaust)
    from processSSELine_run [OF "1.prems"(1) p]
    have e1: "endsRun cb t1 err" and c1: "err = None \<longrightarrow> cleanRun cb t1" by simp_all
    show ?thesis
    proof (cases "dn \<or> err \<noteq> None")
      case True
      from "1.prems"(2) rs None p True have rt: "res = err \<and> tr = t1"
        by (subst (asm) readLoop.simps) auto
      show ?thesis
      proof (cases err)
        case None
        with c1 rt e1 show ?thesis by simp
      next
        case (Some x)
        with rt e1 show ?thesis by simp
      qed
    next
      case False
      then have en: "err = None" and c2: "cleanRun cb t1" using c1 by auto
      from "1.prems"(2) rs None p False have "readLoop unm cb r1 buf' t1 = (res, tr, r')"
        by (subst (asm) readLoop.simps) auto
      then show ?thesis
        using "1.IH" rs None p False c2 by auto
    qed
  qed
qed

lemma endsRun_stop:
  assumes "endsRun cb tr res" "i < length tr" "failedAt cb tr i = Some e"
  shows "Suc i = length tr \<and> res = Some e"
proof -
  from assms(2,3) have nc: "\<not> cleanRun cb tr" by (auto simp: cleanRun_def)
  with assms(1) have ne: "tr \<noteq> []" and cb: "cleanRun cb (butlast tr)"
    and r: "res = failedAt cb tr (length tr - 1)"
    by (auto simp: endsRun_def)
  have "\<not> i < length tr - 1"
  proof
    assume lt: "i < length tr - 1"
    then have "failedAt cb (butlast tr) i = None" using cb by (simp add: cleanRun_def)
    moreover have "failedAt cb (butlast tr @ [last tr]) i = failedAt cb (butlast tr) i"
      using lt by (intro failedAt_append) simp
    ultimately show False using assms(3) ne by simp
  qed
  with assms(2) have "i = length tr - 1" by simp
  with r assms(2,3) show ?thesis by simp
qed

lemma streamLoop_deliver: "streamLoop cb chs tr = deliver cb (chunkTexts chs) tr"
  by (induction chs arbitrary: tr) (auto simp: chunkTexts_def Let_def split: option.splits)

subsection \<open>Runs of the callback through the clients\<close>

lemma endsRun_Nil: "endsRun cb [] res"
  by (simp add: endsRun_def cleanRun_Nil)

lemma readSSEStream_run:
  "readSSEStream unm cb body fin [] = (res, tr, r) \<Longrightarrow> endsRun cb tr res"
  using readLoop_run [OF cleanRun_Nil, of unm cb _ "[]" res tr r]
  by (simp add: readSSEStream_def)

lemma emitGeminiCandidates_run:
  "emitGeminiCandidates cb cands [] = (res, tr) \<Longrightarrow> endsRun cb tr res"
  using deliver_run [OF cleanRun_Nil, of cb "fragments cands" res tr]
  by (simp add: emitGeminiCandidates_deliver)

lemma handleStreamingChat_run:
  "handleStreamingChat fmt cb strm [] = (res, tr) \<Longrightarrow> endsRun cb tr res"
proof -
  assume a: "handleStreamingChat fmt cb strm [] = (res, tr)"
  obtain r1 t1 where d: "deliver cb (chunkTexts (events strm)) [] = (r1, t1)"
    by (cases "deliver cb (chunkTexts (events strm)) []")
  from deliver_run [OF cleanRun_Nil d] have e1: "endsRun cb t1 r1"
    and c1: "r1 = None \<longrightarrow> cleanRun cb t1" by simp_all
  show ?thesis
  proof (cases r1)
    case None
    with a d c1 have "tr = t1" "cleanRun cb t1"
      by (auto simp: handleStreamingChat_def streamLoop_deliver split: option.splits)
    then show ?thesis by (simp add: endsRun_def)
  next
    case (Some err)
    with a d have "tr = t1" "res = r1"
      by (auto simp: handleStreamingChat_def streamLoop_deliver)
    with e1 show ?thesis by simp
  qed
qed

lemma stream_run:
  "stream lib g do endpoint body cb [] = (res, tr, sent) \<Longrightarrow> endsRun cb tr res"
  by (auto simp: stream_def Let_def endsRun_Nil
      split: sum.splits option.splits prod.splits dest: readSSEStream_run)

lemma nonStream_run:
  "nonStream lib g do endpoint body cb [] = (res, tr, sent) \<Longrightarrow> endsRun cb tr res"
  by (auto simp: nonStream_def Let_def endsRun_Nil
      split: sum.splits option.splits prod.splits dest: emitGeminiCandidates_run)

lemma Gemini_Chat_run:
  "Gemini_Chat lib g0 opts [] = (res, tr, sent) \<Longrightarrow> endsRun (onDeltaOrNoop (OnDelta opts)) tr res"
  by (auto simp: Gemini_Chat_def Let_def endsRun_Nil
      split: sum.splits option.splits prod.splits if_splits dest: stream_run nonStream_run)

lemma endsRun_single: "endsRun cb [(c, t)] (cb [] c t)"
  by (cases "cb [] c t") (simp_all add: endsRun_def cleanRun_def failedAt_def)

lemma OpenAI_Chat_run:
  "OpenAI_Chat lib fmt oa opts [] = (res, tr, sent) \<Longrightarrow> endsRun (onDeltaOrNoop (OnDelta opts)) tr res"
  by (auto simp: OpenAI_Chat_def Let_def endsRun_Nil endsRun_single
      split: sum.splits option.splits prod.splits if_splits dest: handleStreamingChat_run)

subsection \<open>The reader as a machine over the lines it reads\<close>

text \<open>
  On a body whose reads all return bytes, \<^verbatim>\<open>readSSEStream\<close> returns the error and makes
  the callback calls of the line machine run on the lines of the body that end with a
  newline, from an empty buffer.
\<close>

lemma readSSEStream_lines:
  "[] \<notin> set body \<Longrightarrow>
     outcome (readSSEStream unm cb body fin tr) =
       sseMachine unm cb fin (completeLines (concat body)) [] tr"
  by (rule readSSEStream_machine)

lemma handleSSEReadError_EOF:
  "handleSSEReadError unm cb EOF buf tr =
     (if buf = [] then (None, tr) else dispatchSSEData unm cb buf tr)"
  by (simp add: handleSSEReadError_def)

text \<open>The bytes that follow the last line end of the body change nothing.\<close>

lemma completeLines_tail:
  "CHR 0x0A \<notin> set t \<Longrightarrow> completeLines (s @ t) = completeLines s"
proof (induction s rule: completeLines.induct)
  case (1 s)
  show ?case
  proof (cases "cutAt (CHR 0x0A) s")
    case None
    then have "CHR 0x0A \<notin> set (s @ t)" using "1.prems" by (simp add: cutAt_None)
    then have "cutAt (CHR 0x0A) (s @ t) = None" by (simp only: cutAt_None not_False_eq_True)
    with None show ?thesis
      by (subst completeLines.simps, subst (2) completeLines.simps) simp
  next
    case (Some p)
    obtain l r where p: "p = (l, r)" by (cases p)
    from Some p have c: "cutAt (CHR 0x0A) (s @ t) = Some (l, r @ t)" by (simp add: cutAt_append)
    have ih: "completeLines (r @ t) = completeLines r"
      using "1.IH" [OF Some p [symmetric] "1.prems"] .
    show ?thesis
      by (subst completeLines.simps, subst (2) completeLines.simps) (simp add: Some p c ih)
  qed
qed

lemma readSSEStream_ignores_tail:
  "[] \<notin> set body \<Longrightarrow> t \<noteq> [] \<Longrightarrow> CHR 0x0A \<notin> set t \<Longrightarrow>
     outcome (readSSEStream unm cb (body @ [t]) fin tr) = outcome (readSSEStream unm cb body fin tr)"
  by (simp add: readSSEStream_machine completeLines_tail)

text \<open>
  A reader that makes no progress: after one event, a hundred reads in a row that return
  no byte end the stream with a transport error that wraps \<^verbatim>\<open>io.ErrNoProgress\<close>; the
  event read before is dispatched.
\<close>

lemma readSSEStream_no_progress:
  "outcome (readSSEStream sampleUnmarshal neverFails
      ((''data: {Hel}'' @ [CHR 0x0A, CHR 0x0A]) # replicate 100 [] @ [''data: {lo}'' @ [CHR 0x0A, CHR 0x0A]])
      EOF [])
   = (Some (Wrap ''providers/gemini: read stream: '' ErrNoProgress), [(''Hel'', [])])"
  by code_simp

text \<open>
  Claim C1 at inputs where the code departs from it. The reader appends the remainder
  of a data line only when the line ends with a newline: \<^verbatim>\<open>ReadString\<close> returns the
  last bytes of a body that does not end with a newline together with \<^verbatim>\<open>io.EOF\<close>, and
  \<^verbatim>\<open>readSSEStream\<close> hands only the error to \<^verbatim>\<open>handleSSEReadError\<close>. So a last
  event whose data line has no line end is not dispatched: a body that is one such line
  makes no callback call, and the same body with the newline makes one; after a complete
  event, a last event without its line end is lost, and with it the event is dispatched
  at the end of the input.
\<close>

theorem readSSEStream_drops_unterminated_event:
  "outcome (readSSEStream sampleUnmarshal neverFails [''data: {Hel}''] EOF []) = (None, []) \<and>
   outcome (readSSEStream sampleUnmarshal neverFails [''data: {Hel}'' @ [CHR 0x0A]] EOF [])
     = (None, [(''Hel'', [])]) \<and>
   outcome (readSSEStream sampleUnmarshal neverFails
      [''data: {Hel}'' @ [CHR 0x0A, CHR 0x0A] @ ''data: {lo}''] EOF [])
     = (None, [(''Hel'', [])]) \<and>
   outcome (readSSEStream sampleUnmarshal neverFails
      [''data: {Hel}'' @ [CHR 0x0A, CHR 0x0A] @ ''data: {lo}'' @ [CHR 0x0A]] EOF [])
     = (None, [(''Hel'', []), (''l'', []), (''o'', []), (''!'', [])])"
  by code_simp

subsection \<open>Reads and lines\<close>

text \<open>
  Claim C4. The bytes of the body decide what \<^verbatim>\<open>readSSEStream\<close> returns and which
  callback calls it makes, in which order; how the transport cuts them into reads does
  not. For a byte stream \<open>s\<close> and any way \<open>body\<close> of cutting it into non-empty reads, the
  outcome is the outcome of the single read of \<open>s\<close>, and so is the outcome of reading
  \<open>s\<close> byte by byte. The body may end with \<^verbatim>\<open>io.EOF\<close> or with any other error \<open>fin\<close>.
\<close>

theorem readSSEStream_chunk_independent:
  assumes "[] \<notin> set body" "concat body = s"
  shows "outcome (readSSEStream unm cb body fin tr) =
           outcome (readSSEStream unm cb (if s = [] then [] else [s]) fin tr) \<and>
         outcome (readSSEStream unm cb (map (\<lambda>c. [c]) s) fin tr) =
           outcome (readSSEStream unm cb (if s = [] then [] else [s]) fin tr)"
proof -
  have c: "concat (map (\<lambda>c. [c]) s) = s" by (induction s) simp_all
  have n1: "[] \<notin> set (if s = [] then [] else [s])" by simp
  have n2: "[] \<notin> set (map (\<lambda>c. [c]) s)" by auto
  have "concat (if s = [] then [] else [s]) = s" by simp
  with assms c show ?thesis
    by (simp only: readSSEStream_machine [OF assms(1)] readSSEStream_machine [OF n1]
        readSSEStream_machine [OF n2])
qed

theorem readSSEStream_chunk_independent_witness:
  "[] \<notin> set [''da'', ''ta: {Hel}'' @ [CHR 0x0A], [CHR 0x0A] @ ''data: {lo}'' @ [CHR 0x0A, CHR 0x0A]] \<and>
   concat [''da'', ''ta: {Hel}'' @ [CHR 0x0A], [CHR 0x0A] @ ''data: {lo}'' @ [CHR 0x0A, CHR 0x0A]]
     = ''data: {Hel}'' @ [CHR 0x0A, CHR 0x0A] @ ''data: {lo}'' @ [CHR 0x0A, CHR 0x0A] \<and>
   outcome (readSSEStream sampleUnmarshal neverFails
      [''da'', ''ta: {Hel}'' @ [CHR 0x0A], [CHR 0x0A] @ ''data: {lo}'' @ [CHR 0x0A, CHR 0x0A]] EOF [])
     = outcome (readSSEStream sampleUnmarshal neverFails
      [''data: {Hel}'' @ [CHR 0x0A, CHR 0x0A] @ ''data: {lo}'' @ [CHR 0x0A, CHR 0x0A]] EOF []) \<and>
   outcome (readSSEStream sampleUnmarshal neverFails
      [''da'', ''ta: {Hel}'' @ [CHR 0x0A], [CHR 0x0A] @ ''data: {lo}'' @ [CHR 0x0A, CHR 0x0A]] EOF [])
     = (None, [(''Hel'', []), (''l'', []), (''o'', []), (''!'', [])])"
proof -
  let ?body = "[''da'', ''ta: {Hel}'' @ [CHR 0x0A], [CHR 0x0A] @ ''data: {lo}'' @ [CHR 0x0A, CHR 0x0A]]"
  let ?s = "''data: {Hel}'' @ [CHR 0x0A, CHR 0x0A] @ ''data: {lo}'' @ [CHR 0x0A, CHR 0x0A]"
  have h1: "[] \<notin> set ?body" by simp
  have h2: "concat ?body = ?s" by simp
  have v: "outcome (readSSEStream sampleUnmarshal neverFails ?body EOF [])
             = (None, [(''Hel'', []), (''l'', []), (''o'', []), (''!'', [])])"
    by code_simp
  from readSSEStream_chunk_independent [OF h1 h2, of sampleUnmarshal neverFails EOF "[]"]
  have "outcome (readSSEStream sampleUnmarshal neverFails ?body EOF [])
          = outcome (readSSEStream sampleUnmarshal neverFails [?s] EOF [])"
    by simp
  with h1 h2 v show ?thesis by simp
qed

subsection \<open>Dispatching one payload\<close>

text \<open>
  Claim C2. \<^verbatim>\<open>dispatchSSEData\<close> trims the payload. An empty payload and the payload
  \<^verbatim>\<open>[DONE]\<close> return no error and call nothing (the trace is unchanged). Any other
  payload is decoded as one response object: a decoding error is returned wrapped, an
  embedded error is returned as the error of the call, with no callback call; otherwise
  the callback is called on the non-empty texts of the parts, candidate by candidate and
  part by part, with an empty thinking argument, until a call returns an error. With
  a callback that returns no error, there is exactly one call for each such text.
\<close>

theorem dispatchSSEData_behaviour:
  "dispatchSSEData unm cb payload tr =
     (if TrimSpace payload = [] \<or> TrimSpace payload = ''[DONE]'' then (None, tr)
      else
        case unm (TrimSpace payload) of
          Inl err \<Rightarrow> (Some (Wrap ''providers/gemini: decode stream chunk: '' err), tr)
        | Inr chunk \<Rightarrow>
            (case Error chunk of
               Some e \<Rightarrow> (Some (UpstreamError e), tr)
             | None \<Rightarrow> deliver cb (fragments (Candidates chunk)) tr)) \<and>
   ((\<forall>tr' t. cb tr' t [] = None) \<longrightarrow>
      deliver cb ts tr = (None, tr @ map (\<lambda>t. (t, [])) ts))"
proof -
  have "(\<forall>tr' t. cb tr' t [] = None) \<Longrightarrow> deliver cb ts tr = (None, tr @ map (\<lambda>t. (t, [])) ts)"
    by (induction ts arbitrary: tr) simp_all
  then show ?thesis by (simp add: dispatchSSEData_eq)
qed

theorem dispatchSSEData_behaviour_witness:
  "(\<forall>tr' t. neverFails tr' t [] = None) \<and>
   dispatchSSEData sampleUnmarshal neverFails ''  {lo} '' [] =
     deliver neverFails (fragments [candidateOf [''l'', [], ''o''], candidateOf [''!'']]) [] \<and>
   deliver neverFails [''l'', ''o'', ''!''] [] = (None, [(''l'', []), (''o'', []), (''!'', [])]) \<and>
   dispatchSSEData sampleUnmarshal neverFails ''  {lo} '' [] =
     (None, [(''l'', []), (''o'', []), (''!'', [])]) \<and>
   dispatchSSEData sampleUnmarshal neverFails '' [DONE]'' [] = (None, []) \<and>
   dispatchSSEData sampleUnmarshal neverFails ''{quota}'' [] =
     (Some (UpstreamError \<lparr>Code = 429, Status = ''RESOURCE_EXHAUSTED'', Message = ''quota''\<rparr>), [])"
proof -
  have n: "\<forall>tr' t. neverFails tr' t [] = None" by (simp add: neverFails_def)
  have t: "TrimSpace ''  {lo} '' = ''{lo}''" by code_simp
  have a: "dispatchSSEData sampleUnmarshal neverFails ''  {lo} '' [] =
     deliver neverFails (fragments [candidateOf [''l'', [], ''o''], candidateOf [''!'']]) []"
    using dispatchSSEData_behaviour [of sampleUnmarshal neverFails "''  {lo} ''" "[]"]
    by (simp add: t sampleUnmarshal_def)
  have b: "deliver neverFails [''l'', ''o'', ''!''] [] = (None, [(''l'', []), (''o'', []), (''!'', [])])"
    using dispatchSSEData_behaviour [of sampleUnmarshal neverFails "[]" "[]" "[''l'', ''o'', ''!'']"] n
    by simp
  have c: "dispatchSSEData sampleUnmarshal neverFails ''  {lo} '' [] =
     (None, [(''l'', []), (''o'', []), (''!'', [])])" by code_simp
  have d: "dispatchSSEData sampleUnmarshal neverFails '' [DONE]'' [] = (None, [])" by code_simp
  have e: "dispatchSSEData sampleUnmarshal neverFails ''{quota}'' [] =
     (Some (UpstreamError \<lparr>Code = 429, Status = ''RESOURCE_EXHAUSTED'', Message = ''quota''\<rparr>), [])"
    by code_simp
  from n a b c d e show ?thesis by blast
qed

subsection \<open>An error of the callback ends the request\<close>

text \<open>
  Claim C3. In the Gemini client (\<^verbatim>\<open>Gemini.Chat\<close>, and in it the streaming reader
  \<^verbatim>\<open>readSSEStream\<close> and the single-response path \<^verbatim>\<open>emitGeminiCandidates\<close>) and in
  the OpenAI client (\<^verbatim>\<open>OpenAI.Chat\<close>, and in it the streaming loop
  \<^verbatim>\<open>handleStreamingChat\<close>), started with no call made: when a call of the callback
  (the call number \<open>i\<close> of the trace) returned an error \<open>e\<close>, that call is the last of
  the trace (nothing is delivered after it) and the function returns exactly \<open>e\<close>, not
  wrapped.
\<close>

theorem callback_error_stops:
  "(readSSEStream unm cb body fin [] = (res, tr, r) \<and> i < length tr \<and>
      failedAt cb tr i = Some e \<longrightarrow> Suc i = length tr \<and> res = Some e) \<and>
   (emitGeminiCandidates cb cands [] = (res, tr) \<and> i < length tr \<and>
      failedAt cb tr i = Some e \<longrightarrow> Suc i = length tr \<and> res = Some e) \<and>
   (handleStreamingChat fmt cb strm [] = (res, tr) \<and> i < length tr \<and>
      failedAt cb tr i = Some e \<longrightarrow> Suc i = length tr \<and> res = Some e) \<and>
   (Gemini_Chat lib g0 opts [] = (res, tr, sent) \<and> i < length tr \<and>
      failedAt (onDeltaOrNoop (OnDelta opts)) tr i = Some e \<longrightarrow>
        Suc i = length tr \<and> res = Some e) \<and>
   (OpenAI_Chat lib fmt oa opts [] = (res, tr, params) \<and> i < length tr \<and>
      failedAt (onDeltaOrNoop (OnDelta opts)) tr i = Some e \<longrightarrow>
        Suc i = length tr \<and> res = Some e)"
proof (intro conjI impI)
  assume a: "readSSEStream unm cb body fin [] = (res, tr, r) \<and> i < length tr \<and>
      failedAt cb tr i = Some e"
  then have "endsRun cb tr res" by (blast dest: readSSEStream_run)
  from endsRun_stop [OF this] a show "Suc i = length tr" "res = Some e" by blast+
next
  assume a: "emitGeminiCandidates cb cands [] = (res, tr) \<and> i < length tr \<and>
      failedAt cb tr i = Some e"
  then have "endsRun cb tr res" by (blast dest: emitGeminiCandidates_run)
  from endsRun_stop [OF this] a show "Suc i = length tr" "res = Some e" by blast+
next
  assume a: "handleStreamingChat fmt cb strm [] = (res, tr) \<and> i < length tr \<and>
      failedAt cb tr i = Some e"
  then have "endsRun cb tr res" by (blast dest: handleStreamingChat_run)
  from endsRun_stop [OF this] a show "Suc i = length tr" "res = Some e" by blast+
next
  assume a: "Gemini_Chat lib g0 opts [] = (res, tr, sent) \<and> i < length tr \<and>
      failedAt (onDeltaOrNoop (OnDelta opts)) tr i = Some e"
  then have "endsRun (onDeltaOrNoop (OnDelta opts)) tr res" by (blast dest: Gemini_Chat_run)
  from endsRun_stop [OF this] a show "Suc i = length tr" "res = Some e" by blast+
next
  assume a: "OpenAI_Chat lib fmt oa opts [] = (res, tr, params) \<and> i < length tr \<and>
      failedAt (onDeltaOrNoop (OnDelta opts)) tr i = Some e"
  then have "endsRun (onDeltaOrNoop (OnDelta opts)) tr res" by (blast dest: OpenAI_Chat_run)
  from endsRun_stop [OF this] a show "Suc i = length tr" "res = Some e" by blast+
qed

theorem callback_error_stops_witness:
  "readSSEStream sampleUnmarshal (failsOnCall 1)
      [''data: {Hel}'' @ [CHR 0x0A, CHR 0x0A] @ ''data: {lo}'' @ [CHR 0x0A, CHR 0x0A]] EOF []
     = (Some (Foreign ''stop''), [(''Hel'', []), (''l'', [])],
        \<lparr>buffered = [], chunks = [], final = EOF\<rparr>) \<and>
   (1::nat) < length ([(''Hel'', []), (''l'', [])] :: trace) \<and>
   failedAt (failsOnCall 1) [(''Hel'', []), (''l'', [])] 1 = Some (Foreign ''stop'') \<and>
   Suc 1 = length ([(''Hel'', []), (''l'', [])] :: trace) \<and>
   emitGeminiCandidates (failsOnCall 1) [candidateOf [''Hel'', ''l'', ''o'']] []
     = (Some (Foreign ''stop''), [(''Hel'', []), (''l'', [])]) \<and>
   handleStreamingChat (\<lambda>c e. Wrap c e) (failsOnCall 1)
      \<lparr>events = [\<lparr>Choices = [\<lparr>DeltaContent = ''Hel''\<rparr>]\<rparr>, \<lparr>Choices = []\<rparr>,
                  \<lparr>Choices = [\<lparr>DeltaContent = '' l ''\<rparr>]\<rparr>, \<lparr>Choices = [\<lparr>DeltaContent = ''o''\<rparr>]\<rparr>],
        Err = None\<rparr> []
     = (Some (Foreign ''stop''), [(''Hel'', []), (''l'', [])])"
proof -
  let ?tr = "[(''Hel'', []), (''l'', [])] :: trace"
  have a: "readSSEStream sampleUnmarshal (failsOnCall 1)
      [''data: {Hel}'' @ [CHR 0x0A, CHR 0x0A] @ ''data: {lo}'' @ [CHR 0x0A, CHR 0x0A]] EOF []
     = (Some (Foreign ''stop''), ?tr, \<lparr>buffered = [], chunks = [], final = EOF\<rparr>)"
    by code_simp
  have b: "(1::nat) < length ?tr" by simp
  have c: "failedAt (failsOnCall 1) ?tr 1 = Some (Foreign ''stop'')"
    by (simp add: failedAt_def failsOnCall_def)
  have d: "emitGeminiCandidates (failsOnCall 1) [candidateOf [''Hel'', ''l'', ''o'']] []
     = (Some (Foreign ''stop''), ?tr)"
    by code_simp
  have e: "handleStreamingChat (\<lambda>c e. Wrap c e) (failsOnCall 1)
      \<lparr>events = [\<lparr>Choices = [\<lparr>DeltaContent = ''Hel''\<rparr>]\<rparr>, \<lparr>Choices = []\<rparr>,
                  \<lparr>Choices = [\<lparr>DeltaContent = '' l ''\<rparr>]\<rparr>, \<lparr>Choices = [\<lparr>DeltaContent = ''o''\<rparr>]\<rparr>],
        Err = None\<rparr> []
     = (Some (Foreign ''stop''), ?tr)"
    by code_simp
  have f: "Suc 1 = length ?tr"
    using callback_error_stops [where unm = sampleUnmarshal and cb = "failsOnCall 1"
        and body = "[''data: {Hel}'' @ [CHR 0x0A, CHR 0x0A] @ ''data: {lo}'' @ [CHR 0x0A, CHR 0x0A]]"
        and fin = EOF and res = "Some (Foreign ''stop'')" and tr = ?tr
        and r = "\<lparr>buffered = [], chunks = [], final = EOF\<rparr>" and i = 1
        and e = "Foreign ''stop''"] a b c
    by simp
  show ?thesis by (intro conjI a b c f d e)
qed

section \<open>Properties of the Gemini client's requests\<close>

subsection \<open>Authentication\<close>

lemma Header_Get_Set: "Header_Get (Header_Set req k v) k' = (if k' = k then Some v else Header_Get req k')"
proof -
  have "map_of (filter (\<lambda>kv. fst kv \<noteq> k) xs) k' = (if k' = k then None else map_of xs k')" for xs :: "(string \<times> string) list"
    by (induction xs) auto
  then show ?thesis by (simp add: Header_Get_def Header_Set_def)
qed

lemma Header_Get_Nil: "Header req = [] \<Longrightarrow> Header_Get req k = None"
  by (simp add: Header_Get_def)

lemma Header_Set_URL: "URL (Header_Set req k v) = URL req"
  by (simp add: Header_Set_def)

lemma newRequest_auth:
  assumes "newRequest lib g endpoint body = Inr req"
  shows "(if authType g = ''auth_token''
          then Header_Get req ''Authorization'' = Some (''Bearer '' @ apiKey g) \<and>
               URL req = endpoint
          else Header_Get req ''Authorization'' = None \<and>
               URL req = endpoint @ (if Contains endpoint ''?'' then ''&key='' else ''?key='')
                           @ QueryEscape (apiKey g)) \<and>
         ((Header_Get req ''Authorization'' \<noteq> None) = (URL req = endpoint))"
proof (cases "authType g = ''auth_token''")
  case True
  with assms show ?thesis
    by (auto simp: newRequest_def Let_def attachAPIKey_def Header_Get_Set Header_Set_URL
        split: option.splits)
next
  case False
  from assms have u: "URL req = attachAPIKey g endpoint"
    and h: "Header_Get req ''Authorization'' = None"
    using False
    by (auto simp: newRequest_def Let_def Header_Get_Set Header_Set_URL Header_Get_Nil
        split: option.splits)
  from False have a: "attachAPIKey g endpoint =
      endpoint @ (if Contains endpoint ''?'' then ''&key='' else ''?key='') @ QueryEscape (apiKey g)"
    by (simp add: attachAPIKey_def)
  have "attachAPIKey g endpoint \<noteq> endpoint" by (simp add: a)
  with False u h a show ?thesis by simp
qed

text \<open>
  The requests that \<^verbatim>\<open>Gemini.Chat\<close> hands to the transport are those of
  \<^verbatim>\<open>newRequest\<close> for the endpoint of \<^verbatim>\<open>buildEndpoint\<close>, with the \<^verbatim>\<open>Accept\<close> header
  added.
\<close>

lemma stream_sent:
  "stream lib g do endpoint body cb tr = (res, tr', sent) \<Longrightarrow> req \<in> set sent \<Longrightarrow>
     \<exists>req0. newRequest lib g endpoint body = Inr req0 \<and> URL req = URL req0 \<and>
            Header_Get req ''Authorization'' = Header_Get req0 ''Authorization''"
  by (auto simp: stream_def Let_def Header_Get_Set Header_Set_URL
      split: sum.splits option.splits prod.splits)

lemma nonStream_sent:
  "nonStream lib g do endpoint body cb tr = (res, tr', sent) \<Longrightarrow> req \<in> set sent \<Longrightarrow>
     \<exists>req0. newRequest lib g endpoint body = Inr req0 \<and> URL req = URL req0 \<and>
            Header_Get req ''Authorization'' = Header_Get req0 ''Authorization''"
  by (auto simp: nonStream_def Let_def Header_Get_Set Header_Set_URL
      split: sum.splits option.splits prod.splits)

lemma Gemini_Chat_sent:
  "Gemini_Chat lib (Some g) opts tr = (res, tr', sent) \<Longrightarrow> req \<in> set sent \<Longrightarrow>
     \<exists>endpoint body req0.
        buildEndpoint g (Model opts) (Stream opts) = Inr endpoint \<and>
        newRequest lib g endpoint body = Inr req0 \<and> URL req = URL req0 \<and>
        Header_Get req ''Authorization'' = Header_Get req0 ''Authorization''"
  by (auto simp: Gemini_Chat_def Let_def split: sum.splits option.splits if_splits)
    (blast dest: stream_sent nonStream_sent)+

lemma Gemini_Chat_sent_auth:
  assumes "Gemini_Chat lib (Some g) opts tr = (res, tr', sent)" "req \<in> set sent"
  shows "\<exists>endpoint. buildEndpoint g (Model opts) (Stream opts) = Inr endpoint \<and>
           (Header_Get req ''Authorization'' \<noteq> None) = (URL req = endpoint) \<and>
           (Header_Get req ''Authorization'' \<noteq> None) = (authType g = ''auth_token'')"
proof -
  from Gemini_Chat_sent [OF assms] obtain endpoint body req0 where
    e: "buildEndpoint g (Model opts) (Stream opts) = Inr endpoint"
    and n: "newRequest lib g endpoint body = Inr req0"
    and u: "URL req = URL req0"
    and h: "Header_Get req ''Authorization'' = Header_Get req0 ''Authorization''"
    by blast
  from newRequest_auth [OF n] u h e show ?thesis
    by (cases "authType g = ''auth_token''") auto
qed


text \<open>
  Claim C5. A request that \<^verbatim>\<open>newRequest\<close> builds places the key in exactly one way. With
  the authentication type \<^verbatim>\<open>auth_token\<close> it has the header \<^verbatim>\<open>Authorization: Bearer\<close>
  followed by the key, and its URL is the endpoint, with nothing appended. With any other
  type (\<^verbatim>\<open>api_key\<close>, the default of \<^verbatim>\<open>NewGemini\<close>) it has no \<^verbatim>\<open>Authorization\<close> header,
  and its URL is the endpoint followed by \<^verbatim>\<open>?key=\<close> (\<^verbatim>\<open>&key=\<close> when the endpoint has
  a query already) and the query-escaped key. So the header is present exactly when the
  URL is the bare endpoint: never both placements, never neither. The same holds of
  every request that \<^verbatim>\<open>Gemini.Chat\<close> hands to the transport.
\<close>

theorem newRequest_one_auth_placement:
  "(newRequest lib g endpoint body = Inr req \<longrightarrow>
      (if authType g = ''auth_token''
       then Header_Get req ''Authorization'' = Some (''Bearer '' @ apiKey g) \<and>
            URL req = endpoint
       else Header_Get req ''Authorization'' = None \<and>
            URL req = endpoint @ (if Contains endpoint ''?'' then ''&key='' else ''?key='')
                        @ QueryEscape (apiKey g)) \<and>
      ((Header_Get req ''Authorization'' \<noteq> None) = (URL req = endpoint))) \<and>
   (Gemini_Chat lib (Some g) opts tr = (res, tr', sent) \<and> req \<in> set sent \<longrightarrow>
      (\<exists>endpoint. buildEndpoint g (Model opts) (Stream opts) = Inr endpoint \<and>
         (Header_Get req ''Authorization'' \<noteq> None) = (URL req = endpoint) \<and>
         (Header_Get req ''Authorization'' \<noteq> None) = (authType g = ''auth_token'')))"
proof (rule conjI)
  show "newRequest lib g endpoint body = Inr req \<longrightarrow>
      (if authType g = ''auth_token''
       then Header_Get req ''Authorization'' = Some (''Bearer '' @ apiKey g) \<and>
            URL req = endpoint
       else Header_Get req ''Authorization'' = None \<and>
            URL req = endpoint @ (if Contains endpoint ''?'' then ''&key='' else ''?key='')
                        @ QueryEscape (apiKey g)) \<and>
      ((Header_Get req ''Authorization'' \<noteq> None) = (URL req = endpoint))"
    using newRequest_auth [of lib g endpoint body req] by (rule impI)
next
  show "Gemini_Chat lib (Some g) opts tr = (res, tr', sent) \<and> req \<in> set sent \<longrightarrow>
      (\<exists>endpoint. buildEndpoint g (Model opts) (Stream opts) = Inr endpoint \<and>
         (Header_Get req ''Authorization'' \<noteq> None) = (URL req = endpoint) \<and>
         (Header_Get req ''Authorization'' \<noteq> None) = (authType g = ''auth_token''))"
    using Gemini_Chat_sent_auth [of lib g opts tr res tr' sent req] by blast
qed

theorem newRequest_one_auth_placement_witness:
  "newRequest sampleLibrary (sampleGemini ''api_key'') ''https://h/v1beta/models/m:generateContent'' ''{}''
     = Inr \<lparr>Method = ''POST'', URL = ''https://h/v1beta/models/m:generateContent?key=k+1'',
            Header = [(''User-Agent'', browserUserAgent), (''Content-Type'', ''application/json'')],
            Body = ''{}''\<rparr> \<and>
   Header_Get \<lparr>Method = ''POST'', URL = ''https://h/v1beta/models/m:generateContent?key=k+1'',
            Header = [(''User-Agent'', browserUserAgent), (''Content-Type'', ''application/json'')],
            Body = ''{}''\<rparr> ''Authorization'' = None \<and>
   newRequest sampleLibrary (sampleGemini ''auth_token'')
       ''https://h/v1beta/models/m:streamGenerateContent?alt=sse'' ''{}''
     = Inr \<lparr>Method = ''POST'', URL = ''https://h/v1beta/models/m:streamGenerateContent?alt=sse'',
            Header = [(''Authorization'', ''Bearer k 1''), (''User-Agent'', browserUserAgent),
                      (''Content-Type'', ''application/json'')],
            Body = ''{}''\<rparr> \<and>
   snd (snd (Gemini_Chat sampleLibrary (Some (sampleGemini ''auth_token''))
               (sampleOptions\<lparr>Stream := True\<rparr>) []))
     = [\<lparr>Method = ''POST'', URL = ''https://h/v1beta/models/m:streamGenerateContent?alt=sse'',
         Header = [(''Accept'', ''text/event-stream''), (''Authorization'', ''Bearer k 1''),
                   (''User-Agent'', browserUserAgent), (''Content-Type'', ''application/json'')],
         Body = ''{}''\<rparr>]"
proof -
  let ?req = "\<lparr>Method = ''POST'', URL = ''https://h/v1beta/models/m:generateContent?key=k+1'',
            Header = [(''User-Agent'', browserUserAgent), (''Content-Type'', ''application/json'')],
            Body = ''{}''\<rparr>"
  have a: "newRequest sampleLibrary (sampleGemini ''api_key'')
             ''https://h/v1beta/models/m:generateContent'' ''{}'' = Inr ?req"
    by code_simp
  have "(Header_Get ?req ''Authorization'' \<noteq> None) =
          (URL ?req = ''https://h/v1beta/models/m:generateContent'')"
    using newRequest_one_auth_placement
      [where lib = sampleLibrary and g = "sampleGemini ''api_key''"
         and endpoint = "''https://h/v1beta/models/m:generateContent''" and body = "''{}''"
         and req = ?req] a
    by blast
  then have b: "Header_Get ?req ''Authorization'' = None"
    by simp
  have c: "newRequest sampleLibrary (sampleGemini ''auth_token'')
       ''https://h/v1beta/models/m:streamGenerateContent?alt=sse'' ''{}''
     = Inr \<lparr>Method = ''POST'', URL = ''https://h/v1beta/models/m:streamGenerateContent?alt=sse'',
            Header = [(''Authorization'', ''Bearer k 1''), (''User-Agent'', browserUserAgent),
                      (''Content-Type'', ''application/json'')],
            Body = ''{}''\<rparr>"
    by code_simp
  have d: "snd (snd (Gemini_Chat sampleLibrary (Some (sampleGemini ''auth_token''))
               (sampleOptions\<lparr>Stream := True\<rparr>) []))
     = [\<lparr>Method = ''POST'', URL = ''https://h/v1beta/models/m:streamGenerateContent?alt=sse'',
         Header = [(''Accept'', ''text/event-stream''), (''Authorization'', ''Bearer k 1''),
                   (''User-Agent'', browserUserAgent), (''Content-Type'', ''application/json'')],
         Body = ''{}''\<rparr>]"
    by code_simp
  show ?thesis by (intro conjI a b c d)
qed

text \<open>
  The default of \<^verbatim>\<open>NewGemini\<close>: a configuration with a key and a blank authentication
  type gives a client of type \<^verbatim>\<open>api_key\<close>, whenever \<^verbatim>\<open>strings.ToLower\<close> maps the empty
  string to itself; and every client it returns has one of the two types.
\<close>

lemma NewGemini_default:
  "ToLower [] = [] \<Longrightarrow> TrimSpace (AuthType cfg) = [] \<Longrightarrow> NewGemini ToLower Quote t cfg = Inr g \<Longrightarrow>
     authType g = ''api_key''"
  by (auto simp: NewGemini_def Let_def split: if_splits)

lemma NewGemini_authType:
  "NewGemini ToLower Quote t cfg = Inr g \<Longrightarrow> authType g = ''api_key'' \<or> authType g = ''auth_token''"
  by (auto simp: NewGemini_def Let_def split: if_splits)

lemma NewGemini_unsupported:
  "TrimSpace (APIKey cfg) \<noteq> [] \<Longrightarrow>
   ToLower (TrimSpace (AuthType cfg)) \<notin> {[], ''api_key'', ''auth_token''} \<Longrightarrow>
   NewGemini ToLower Quote t cfg =
     Inl (Errorf (''providers/gemini: unsupported auth type '' @ Quote (AuthType cfg)))"
  by (simp add: NewGemini_def Let_def)

lemma NewGemini_baseURL:
  "NewGemini ToLower Quote t cfg = Inr g \<Longrightarrow> baseURL g = normalizeGeminiBaseURL (BaseURL cfg)"
  by (auto simp: NewGemini_def Let_def split: if_splits)

subsection \<open>Classifying the response\<close>

lemma stream_check:
  assumes "newRequest lib g endpoint body = Inr req0"
    "do (Header_Set req0 ''Accept'' ''text/event-stream'') = Inr resp"
    "checkGeminiResponse lib resp = Some err"
  shows "stream lib g do endpoint body cb tr =
           (Some err, tr, [Header_Set req0 ''Accept'' ''text/event-stream''])"
  using assms by (simp add: stream_def Let_def)

lemma nonStream_check:
  assumes "newRequest lib g endpoint body = Inr req0"
    "do (Header_Set req0 ''Accept'' ''application/json'') = Inr resp"
    "checkGeminiResponse lib resp = Some err"
  shows "nonStream lib g do endpoint body cb tr =
           (Some err, tr, [Header_Set req0 ''Accept'' ''application/json''])"
  using assms by (simp add: nonStream_def Let_def)

lemma checkGeminiResponse_Some: "400 \<le> StatusCode resp \<Longrightarrow> \<exists>err. checkGeminiResponse lib resp = Some err"
  by (auto simp: checkGeminiResponse_def httpStatusClientErr_def Let_def split: sum.splits option.splits)

text \<open>
  Claim C8. \<^verbatim>\<open>checkGeminiResponse\<close> returns no error for a status below 400. For a
  status of 400 or more it reads the body: when the body decodes as an error envelope that
  holds an error, that error (its code, its status token and its message, as decoded) is
  returned; when the body does not decode, or decodes to an envelope with no error, the
  error returned is the text \<^verbatim>\<open>providers/gemini: http\<close>, the status code in decimal, a
  colon and the trimmed body. In both paths of the client (\<^verbatim>\<open>stream\<close>, \<^verbatim>\<open>nonStream\<close>)
  the error of a response with a status of 400 or more ends the call: it is what the
  call returns, and the callback is not called.
\<close>

theorem checkGeminiResponse_classifies:
  "(StatusCode resp < 400 \<longrightarrow> checkGeminiResponse lib resp = None) \<and>
   (400 \<le> StatusCode resp \<and>
      UnmarshalError lib (concat (RespBody resp)) = Inr \<lparr>EnvelopeError = Some p\<rparr> \<longrightarrow>
        checkGeminiResponse lib resp = Some (UpstreamError p)) \<and>
   (400 \<le> StatusCode resp \<and>
      (UnmarshalError lib (concat (RespBody resp)) = Inr \<lparr>EnvelopeError = None\<rparr> \<or>
       UnmarshalError lib (concat (RespBody resp)) = Inl err) \<longrightarrow>
        checkGeminiResponse lib resp =
          Some (Errorf (''providers/gemini: http '' @ itoa (StatusCode resp) @ '': ''
                        @ TrimSpace (concat (RespBody resp))))) \<and>
   (400 \<le> StatusCode resp \<and> newRequest lib g endpoint body = Inr req0 \<and>
      do (Header_Set req0 ''Accept'' ''text/event-stream'') = Inr resp \<longrightarrow>
        stream lib g do endpoint body cb tr =
          (checkGeminiResponse lib resp, tr, [Header_Set req0 ''Accept'' ''text/event-stream''])) \<and>
   (400 \<le> StatusCode resp \<and> newRequest lib g endpoint body = Inr req0 \<and>
      do (Header_Set req0 ''Accept'' ''application/json'') = Inr resp \<longrightarrow>
        nonStream lib g do endpoint body cb tr =
          (checkGeminiResponse lib resp, tr, [Header_Set req0 ''Accept'' ''application/json'']))"
proof (intro conjI impI)
  assume "StatusCode resp < 400"
  then show "checkGeminiResponse lib resp = None"
    by (simp add: checkGeminiResponse_def httpStatusClientErr_def)
next
  assume "400 \<le> StatusCode resp \<and>
      UnmarshalError lib (concat (RespBody resp)) = Inr \<lparr>EnvelopeError = Some p\<rparr>"
  then show "checkGeminiResponse lib resp = Some (UpstreamError p)"
    by (simp add: checkGeminiResponse_def httpStatusClientErr_def Let_def)
next
  assume "400 \<le> StatusCode resp \<and>
      (UnmarshalError lib (concat (RespBody resp)) = Inr \<lparr>EnvelopeError = None\<rparr> \<or>
       UnmarshalError lib (concat (RespBody resp)) = Inl err)"
  then show "checkGeminiResponse lib resp =
          Some (Errorf (''providers/gemini: http '' @ itoa (StatusCode resp) @ '': ''
                        @ TrimSpace (concat (RespBody resp))))"
    by (auto simp: checkGeminiResponse_def httpStatusClientErr_def Let_def)
next
  assume a: "400 \<le> StatusCode resp \<and> newRequest lib g endpoint body = Inr req0 \<and>
      do (Header_Set req0 ''Accept'' ''text/event-stream'') = Inr resp"
  then obtain e where e: "checkGeminiResponse lib resp = Some e"
    using checkGeminiResponse_Some [of resp lib] by blast
  from a e show "stream lib g do endpoint body cb tr =
          (checkGeminiResponse lib resp, tr, [Header_Set req0 ''Accept'' ''text/event-stream''])"
    using stream_check [of lib g endpoint body req0 do resp e cb tr] by simp
next
  assume a: "400 \<le> StatusCode resp \<and> newRequest lib g endpoint body = Inr req0 \<and>
      do (Header_Set req0 ''Accept'' ''application/json'') = Inr resp"
  then obtain e where e: "checkGeminiResponse lib resp = Some e"
    using checkGeminiResponse_Some [of resp lib] by blast
  from a e show "nonStream lib g do endpoint body cb tr =
          (checkGeminiResponse lib resp, tr, [Header_Set req0 ''Accept'' ''application/json''])"
    using nonStream_check [of lib g endpoint body req0 do resp e cb tr] by simp
qed

theorem checkGeminiResponse_classifies_witness:
  "checkGeminiResponse sampleLibrary \<lparr>StatusCode = 200, RespBody = [''{quota}''], RespBodyErr = EOF\<rparr>
     = None \<and>
   checkGeminiResponse sampleLibrary \<lparr>StatusCode = 429, RespBody = [''{quo'', ''ta}''], RespBodyErr = EOF\<rparr>
     = Some (UpstreamError \<lparr>Code = 429, Status = ''RESOURCE_EXHAUSTED'', Message = ''quota''\<rparr>) \<and>
   checkGeminiResponse sampleLibrary \<lparr>StatusCode = 502, RespBody = ['' Bad Gateway '', [CHR 0x0A]], RespBodyErr = EOF\<rparr>
     = Some (Errorf ''providers/gemini: http 502: Bad Gateway'') \<and>
   fst (Gemini_Chat sampleLibrary
          (Some ((sampleGemini ''api_key'')\<lparr>client := Some quotaTransport\<rparr>))
          (sampleOptions\<lparr>Stream := True, OnDelta := Some (failsOnCall 0)\<rparr>) [])
     = Some (UpstreamError \<lparr>Code = 429, Status = ''RESOURCE_EXHAUSTED'', Message = ''quota''\<rparr>)"
proof -
  let ?r1 = "\<lparr>StatusCode = 200, RespBody = [''{quota}''], RespBodyErr = EOF\<rparr>"
  let ?r2 = "\<lparr>StatusCode = 429, RespBody = [''{quo'', ''ta}''], RespBodyErr = EOF\<rparr>"
  let ?r3 = "\<lparr>StatusCode = 502, RespBody = ['' Bad Gateway '', [CHR 0x0A]], RespBodyErr = EOF\<rparr>"
  let ?p = "\<lparr>Code = 429, Status = ''RESOURCE_EXHAUSTED'', Message = ''quota''\<rparr>"
  have a: "checkGeminiResponse sampleLibrary ?r1 = None"
    using checkGeminiResponse_classifies [where resp = ?r1 and lib = sampleLibrary] by simp
  have u2: "UnmarshalError sampleLibrary (concat (RespBody ?r2)) = Inr \<lparr>EnvelopeError = Some ?p\<rparr>"
    by (simp add: sampleLibrary_def)
  have b: "checkGeminiResponse sampleLibrary ?r2 = Some (UpstreamError ?p)"
    using checkGeminiResponse_classifies [where resp = ?r2 and lib = sampleLibrary and p = ?p] u2
    by simp
  have u3: "UnmarshalError sampleLibrary (concat (RespBody ?r3)) = Inl (Foreign ''invalid character'')"
    by (simp add: sampleLibrary_def)
  have t: "TrimSpace (concat (RespBody ?r3)) = ''Bad Gateway''" by code_simp
  have i: "itoa 502 = ''502''" by code_simp
  have c: "checkGeminiResponse sampleLibrary ?r3 = Some (Errorf ''providers/gemini: http 502: Bad Gateway'')"
    using checkGeminiResponse_classifies
      [where resp = ?r3 and lib = sampleLibrary and err = "Foreign ''invalid character''"] u3 t i
    by simp
  have d: "fst (Gemini_Chat sampleLibrary
          (Some ((sampleGemini ''api_key'')\<lparr>client := Some quotaTransport\<rparr>))
          (sampleOptions\<lparr>Stream := True, OnDelta := Some (failsOnCall 0)\<rparr>) [])
     = Some (UpstreamError ?p)"
    by code_simp
  show ?thesis by (intro conjI a b c d)
qed

subsection \<open>The endpoint\<close>

lemma TrimRight_id: "s = [] \<or> last s \<notin> set cutset \<Longrightarrow> TrimRight s cutset = s"
  by (cases s rule: rev_cases) (auto simp: TrimRight_def)

lemma HasSuffix_last: "HasSuffix s p \<Longrightarrow> p \<noteq> [] \<Longrightarrow> last s = last p"
proof -
  assume a: "HasSuffix s p" and n: "p \<noteq> []"
  then have "s = take (length s - length p) s @ p"
    by (metis HasSuffix_def append_take_drop_id)
  then show ?thesis using n by (metis last_appendR)
qed

lemma normalizeGeminiBaseURL_no_slash:
  "TrimRight (normalizeGeminiBaseURL base) ''/'' = normalizeGeminiBaseURL base"
proof -
  let ?b = "TrimRight (TrimSpace base) ''/''"
  have d: "TrimRight defaultGeminiBaseURL ''/'' = defaultGeminiBaseURL" by code_simp
  have s: "HasSuffix ?b p \<Longrightarrow> p \<noteq> [] \<Longrightarrow> last p \<noteq> CHR ''/'' \<Longrightarrow> TrimRight ?b ''/'' = ?b" for p
    using HasSuffix_last [of ?b p] by (intro TrimRight_id) simp
  have a: "TrimRight (?b @ ''/v1beta'') ''/'' = ?b @ ''/v1beta''"
    by (intro TrimRight_id) simp
  show ?thesis
    using d s [of "''/v1''"] s [of "''/v1beta''"] s [of "''/v1beta1''"] a
    by (auto simp: normalizeGeminiBaseURL_def Let_def)
qed


text \<open>
  Claim C9, as stated, fails: the endpoint carries the escaped form of the trimmed
  model, not of the model as given; a model that is blank has no endpoint; and the
  normalization of a blank base URL is the default base URL, not a blank base with the
  version segment appended.
\<close>

theorem buildEndpoint_counterexample:
  "buildEndpoint (sampleGemini ''api_key'') '' m'' False
     = Inr ''https://h/v1beta/models/m:generateContent'' \<and>
   baseURL (sampleGemini ''api_key'') @ ''/models/'' @ PathEscape '' m'' @ '':generateContent''
     = ''https://h/v1beta/models/%20m:generateContent'' \<and>
   buildEndpoint (sampleGemini ''api_key'') '' '' True
     = Inl (Errorf ''providers/gemini: model is required'') \<and>
   normalizeGeminiBaseURL '' '' = ''https://generativelanguage.googleapis.com/v1beta''"
  by code_simp

text \<open>
  Claim C9, amended. For a model that is not blank, \<^verbatim>\<open>buildEndpoint\<close> returns the base
  URL of the client without trailing slashes, then \<^verbatim>\<open>/models/\<close>, then the path-escaped
  form of the model trimmed of white space, then \<^verbatim>\<open>:streamGenerateContent?alt=sse\<close>
  when streaming is requested and \<^verbatim>\<open>:generateContent\<close> with no query otherwise; for a
  blank model it returns the error \<^verbatim>\<open>model is required\<close>. For a client made by
  \<^verbatim>\<open>NewGemini\<close> that base is the normalized base URL of the configuration. The
  normalization trims white space and then trailing slashes; a blank base gives the
  default base URL; a base that ends in \<^verbatim>\<open>/v1\<close>, \<^verbatim>\<open>/v1beta\<close> or \<^verbatim>\<open>/v1beta1\<close> is kept,
  and any other gets \<^verbatim>\<open>/v1beta\<close> appended.
\<close>

theorem buildEndpoint_amended:
  "(TrimSpace model \<noteq> [] \<longrightarrow>
      buildEndpoint g model streaming =
        Inr (TrimRight (baseURL g) ''/'' @ ''/models/'' @ PathEscape (TrimSpace model) @
             (if streaming then '':streamGenerateContent?alt=sse'' else '':generateContent''))) \<and>
   (TrimSpace model = [] \<longrightarrow>
      buildEndpoint g model streaming = Inl (Errorf ''providers/gemini: model is required'')) \<and>
   (NewGemini ToLower Quote transport cfg = Inr g \<longrightarrow>
      TrimRight (baseURL g) ''/'' = normalizeGeminiBaseURL (BaseURL cfg)) \<and>
   normalizeGeminiBaseURL base =
     (if TrimSpace base = [] then ''https://generativelanguage.googleapis.com/v1beta''
      else if HasSuffix (TrimRight (TrimSpace base) ''/'') ''/v1'' \<or>
              HasSuffix (TrimRight (TrimSpace base) ''/'') ''/v1beta'' \<or>
              HasSuffix (TrimRight (TrimSpace base) ''/'') ''/v1beta1''
           then TrimRight (TrimSpace base) ''/''
           else TrimRight (TrimSpace base) ''/'' @ ''/v1beta'')"
proof (intro conjI impI)
  assume "TrimSpace model \<noteq> []"
  then show "buildEndpoint g model streaming =
        Inr (TrimRight (baseURL g) ''/'' @ ''/models/'' @ PathEscape (TrimSpace model) @
             (if streaming then '':streamGenerateContent?alt=sse'' else '':generateContent''))"
    by (simp add: buildEndpoint_def Let_def geminiStreamingPath_def geminiNonStreamPath_def)
next
  assume "TrimSpace model = []"
  then show "buildEndpoint g model streaming = Inl (Errorf ''providers/gemini: model is required'')"
    by (simp add: buildEndpoint_def)
next
  assume "NewGemini ToLower Quote transport cfg = Inr g"
  then have "baseURL g = normalizeGeminiBaseURL (BaseURL cfg)" by (rule NewGemini_baseURL)
  then show "TrimRight (baseURL g) ''/'' = normalizeGeminiBaseURL (BaseURL cfg)"
    by (simp add: normalizeGeminiBaseURL_no_slash)
next
  show "normalizeGeminiBaseURL base =
     (if TrimSpace base = [] then ''https://generativelanguage.googleapis.com/v1beta''
      else if HasSuffix (TrimRight (TrimSpace base) ''/'') ''/v1'' \<or>
              HasSuffix (TrimRight (TrimSpace base) ''/'') ''/v1beta'' \<or>
              HasSuffix (TrimRight (TrimSpace base) ''/'') ''/v1beta1''
           then TrimRight (TrimSpace base) ''/''
           else TrimRight (TrimSpace base) ''/'' @ ''/v1beta'')"
    by (simp add: normalizeGeminiBaseURL_def Let_def defaultGeminiBaseURL_def)
qed

theorem buildEndpoint_amended_witness:
  "TrimSpace '' gemini 1.5/pro '' \<noteq> [] \<and>
   NewGemini (\<lambda>s. s) (\<lambda>s. s) sampleTransport sampleConfig
     = Inr \<lparr>client = Some sampleTransport, baseURL = ''https://h/v1beta'', apiKey = ''k 1'',
            authType = ''api_key''\<rparr> \<and>
   buildEndpoint \<lparr>client = Some sampleTransport, baseURL = ''https://h/v1beta'', apiKey = ''k 1'',
            authType = ''api_key''\<rparr> '' gemini 1.5/pro '' True
     = Inr ''https://h/v1beta/models/gemini%201.5%2Fpro:streamGenerateContent?alt=sse'' \<and>
   TrimSpace [CHR 0x09] = [] \<and>
   buildEndpoint \<lparr>client = Some sampleTransport, baseURL = ''https://h/v1beta'', apiKey = ''k 1'',
            authType = ''api_key''\<rparr> [CHR 0x09] True
     = Inl (Errorf ''providers/gemini: model is required'') \<and>
   normalizeGeminiBaseURL (BaseURL sampleConfig) = ''https://h/v1beta''"
proof -
  let ?g = "\<lparr>client = Some sampleTransport, baseURL = ''https://h/v1beta'', apiKey = ''k 1'',
            authType = ''api_key''\<rparr>"
  have t: "TrimSpace '' gemini 1.5/pro '' = ''gemini 1.5/pro''" by code_simp
  have t1: "TrimSpace '' gemini 1.5/pro '' \<noteq> []" by (simp add: t)
  have p: "PathEscape ''gemini 1.5/pro'' = ''gemini%201.5%2Fpro''" by code_simp
  have r: "TrimRight ''https://h/v1beta'' ''/'' = ''https://h/v1beta''" by code_simp
  have k: "TrimSpace '' k 1 '' = ''k 1''" by code_simp
  have a: "TrimSpace [] = []" by code_simp
  have b0: "normalizeGeminiBaseURL '' https://h// '' = ''https://h/v1beta''" by code_simp
  have n: "NewGemini (\<lambda>s. s) (\<lambda>s. s) sampleTransport sampleConfig = Inr ?g"
    by (simp add: NewGemini_def sampleConfig_def Let_def k a b0)
  have b: "normalizeGeminiBaseURL (BaseURL sampleConfig) = ''https://h/v1beta''"
    by (simp add: sampleConfig_def b0)
  have e: "buildEndpoint ?g '' gemini 1.5/pro '' True
     = Inr ''https://h/v1beta/models/gemini%201.5%2Fpro:streamGenerateContent?alt=sse''"
    using buildEndpoint_amended [of "'' gemini 1.5/pro ''" ?g True] t1
    by (simp add: t p r)
  have t2: "TrimSpace [CHR 0x09] = []" by code_simp
  have f: "buildEndpoint ?g [CHR 0x09] True = Inl (Errorf ''providers/gemini: model is required'')"
    using buildEndpoint_amended [of "[CHR 0x09]" ?g True] t2 by simp
  show ?thesis by (intro conjI t1 n e t2 f b)
qed

section \<open>Properties of the three clients' Chat\<close>

subsection \<open>What the Ollama and the OpenAI client hand to their SDK\<close>

lemma OpenAI_Chat_sent:
  "snd (snd (OpenAI_Chat lib fmt (Some oa) opts tr)) = [chatParams lib opts]"
  by (simp add: OpenAI_Chat_def Let_def split: prod.splits sum.splits)

lemma Ollama_Chat_sent:
  "Ollama_Chat (Some \<lparr>ollamaClient = Some chat\<rparr>) opts tr =
     (fst (chat (chatRequest opts) (respFunc opts) tr),
      snd (chat (chatRequest opts) (respFunc opts) tr), [chatRequest opts])"
  by (simp add: Ollama_Chat_def Let_def split: prod.splits)

lemma chatRequest_model: "reqModel (chatRequest opts) = Model opts"
  by (simp add: chatRequest_def Let_def)

lemma chatRequest_format: "reqFormat (chatRequest opts) = ensureFormat (Format opts)"
  by (simp add: chatRequest_def Let_def)

lemma ensureFormat_nonempty: "ensureFormat f \<noteq> []"
  by (simp add: ensureFormat_def)

lemma chatParams_model: "paramModel (chatParams lib opts) = Model opts"
  by (simp add: chatParams_def Let_def)

lemma chatParams_format:
  "paramResponseFormat (chatParams lib opts) =
     (if NoResponseFormat opts then None
      else Some (toResponseFormat (UnmarshalAny lib) (Format opts)))"
  by (simp add: chatParams_def Let_def)


subsection \<open>The model field\<close>

text \<open>
  Claim C6, as stated, fails for two of the three clients: with an empty model the
  Ollama client and the OpenAI client return no error of their own; they hand the
  request to the SDK, and with an SDK that answers, the call succeeds.
\<close>

theorem empty_model_counterexample:
  "Ollama_Chat (Some sampleOllama) (sampleOptions\<lparr>Model := []\<rparr>) []
     = (None, [(''ok'', [])],
        [\<lparr>reqModel = [],
          reqMessages = [\<lparr>msgRole = ''user'', msgContent = ''hello'', msgImages = []\<rparr>],
          reqThink = False, reqOptions = [(''enable_thinking'', ABool False)],
          reqFormat = [CHR 0x22] @ ''json'' @ [CHR 0x22], reqStream = Some False\<rparr>]) \<and>
   OpenAI_Chat sampleLibrary Wrap (Some sampleOpenAI) (sampleOptions\<lparr>Model := []\<rparr>) []
     = (None, [(''ok'', [])],
        [\<lparr>paramMessages = [OfUser [TextContentPart ''hello'']], paramModel = [],
          paramTemperature = 0, paramTopP = 0, paramResponseFormat = Some OfJSONObject\<rparr>])"
  by code_simp

text \<open>
  Claim C6, amended. The Gemini client fails a request whose model is blank before it
  builds or sends any request and before any callback call: \<^verbatim>\<open>Gemini.Chat\<close> returns the
  error \<^verbatim>\<open>model is required\<close> (or \<^verbatim>\<open>nil client\<close>, when it has no client), the trace is
  unchanged and nothing was handed to the transport. The Ollama client and the OpenAI
  client do not look at the model: whatever it is, they hand the SDK one request that
  carries the model as given, and the Ollama client returns what the SDK returns.
\<close>

theorem blank_model_fails_before_io:
  "(TrimSpace (Model opts) = [] \<longrightarrow>
      Gemini_Chat lib g0 opts tr = (Some (Errorf ''providers/gemini: nil client''), tr, []) \<or>
      Gemini_Chat lib g0 opts tr = (Some (Errorf ''providers/gemini: model is required''), tr, [])) \<and>
   (TrimSpace (Model opts) = [] \<and> g0 = Some g \<and> client g = Some transport \<longrightarrow>
      Gemini_Chat lib g0 opts tr = (Some (Errorf ''providers/gemini: model is required''), tr, [])) \<and>
   (\<exists>req fn. reqModel req = Model opts \<and>
      Ollama_Chat (Some \<lparr>ollamaClient = Some chat\<rparr>) opts tr =
        (fst (chat req fn tr), snd (chat req fn tr), [req])) \<and>
   (\<exists>params. paramModel params = Model opts \<and>
      snd (snd (OpenAI_Chat lib fmt (Some oa) opts tr)) = [params])"
proof (intro conjI impI)
  assume "TrimSpace (Model opts) = []"
  then show "Gemini_Chat lib g0 opts tr = (Some (Errorf ''providers/gemini: nil client''), tr, []) \<or>
      Gemini_Chat lib g0 opts tr = (Some (Errorf ''providers/gemini: model is required''), tr, [])"
    by (simp add: Gemini_Chat_def split: option.splits)
next
  assume "TrimSpace (Model opts) = [] \<and> g0 = Some g \<and> client g = Some transport"
  then show "Gemini_Chat lib g0 opts tr = (Some (Errorf ''providers/gemini: model is required''), tr, [])"
    by (simp add: Gemini_Chat_def)
next
  show "\<exists>req fn. reqModel req = Model opts \<and>
      Ollama_Chat (Some \<lparr>ollamaClient = Some chat\<rparr>) opts tr =
        (fst (chat req fn tr), snd (chat req fn tr), [req])"
    using Ollama_Chat_sent [of chat opts tr] chatRequest_model [of opts] by blast
next
  show "\<exists>params. paramModel params = Model opts \<and>
      snd (snd (OpenAI_Chat lib fmt (Some oa) opts tr)) = [params]"
    using OpenAI_Chat_sent [of lib fmt oa opts tr] chatParams_model [of lib opts] by blast
qed

theorem blank_model_fails_before_io_witness:
  "TrimSpace (Model (sampleOptions\<lparr>Model := '' ''\<rparr>)) = [] \<and>
   client (sampleGemini ''api_key'') = Some sampleTransport \<and>
   Gemini_Chat sampleLibrary (Some (sampleGemini ''api_key'')) (sampleOptions\<lparr>Model := '' ''\<rparr>) []
     = (Some (Errorf ''providers/gemini: model is required''), [], [])"
proof -
  have a: "TrimSpace (Model (sampleOptions\<lparr>Model := '' ''\<rparr>)) = []" by code_simp
  have b: "client (sampleGemini ''api_key'') = Some sampleTransport"
    by (simp add: sampleGemini_def)
  have c: "Gemini_Chat sampleLibrary (Some (sampleGemini ''api_key'')) (sampleOptions\<lparr>Model := '' ''\<rparr>) []
     = (Some (Errorf ''providers/gemini: model is required''), [], [])"
    using blank_model_fails_before_io
      [of "sampleOptions\<lparr>Model := '' ''\<rparr>" sampleLibrary "Some (sampleGemini ''api_key'')" "[]"
          "sampleGemini ''api_key''" sampleTransport] a b
    by simp
  show ?thesis by (intro conjI a b c)
qed

subsection \<open>Suppressing the response format\<close>

text \<open>
  With \<^verbatim>\<open>NoResponseFormat\<close> set, the generation configuration of the Gemini client has
  no response MIME type and no response schema, whether it is sent or left out, and the
  parameters of the OpenAI client have no response format.
\<close>

lemma buildGenerationConfig_suppressed:
  "NoResponseFormat opts \<Longrightarrow> buildGenerationConfig unmarshalAny opts = Some cfg \<Longrightarrow>
     responseMimeType cfg = [] \<and> responseSchema cfg = None"
  by (auto simp: buildGenerationConfig_def Let_def split: if_splits option.splits)

lemma OpenAI_Chat_suppressed:
  "NoResponseFormat opts \<Longrightarrow> params \<in> set (snd (snd (OpenAI_Chat lib fmt oa opts tr))) \<Longrightarrow>
     paramResponseFormat params = None"
proof (cases oa)
  case None
  assume "params \<in> set (snd (snd (OpenAI_Chat lib fmt oa opts tr)))"
  with None show ?thesis by (simp add: OpenAI_Chat_def)
next
  case (Some c)
  assume "NoResponseFormat opts" "params \<in> set (snd (snd (OpenAI_Chat lib fmt oa opts tr)))"
  with Some show ?thesis by (simp add: OpenAI_Chat_sent chatParams_format)
qed

text \<open>
  The Ollama client does not read \<^verbatim>\<open>NoResponseFormat\<close>: every request it hands to the
  SDK carries \<^verbatim>\<open>ensureFormat(opts.Format)\<close>, which is never empty.
\<close>

lemma Ollama_Chat_format:
  "req \<in> set (snd (snd (Ollama_Chat ol opts tr))) \<Longrightarrow>
     reqFormat req = ensureFormat (Format opts) \<and> reqFormat req \<noteq> []"
  by (auto simp: Ollama_Chat_def Let_def chatRequest_format ensureFormat_nonempty
      split: option.splits prod.splits)

text \<open>
  Claim C7 at an input where the code departs from it: with \<^verbatim>\<open>NoResponseFormat\<close> set
  and no format given, the request of the Ollama client carries the format \<^verbatim>\<open>"json"\<close>.
\<close>

theorem Ollama_Chat_sends_format:
  "NoResponseFormat (sampleOptions\<lparr>NoResponseFormat := True\<rparr>) \<and>
   Ollama_Chat (Some sampleOllama) (sampleOptions\<lparr>NoResponseFormat := True\<rparr>) []
     = (None, [(''ok'', [])],
        [\<lparr>reqModel = ''m'',
          reqMessages = [\<lparr>msgRole = ''user'', msgContent = ''hello'', msgImages = []\<rparr>],
          reqThink = False, reqOptions = [(''enable_thinking'', ABool False)],
          reqFormat = [CHR 0x22] @ ''json'' @ [CHR 0x22], reqStream = Some False\<rparr>])"
  by code_simp

section \<open>Properties of the bounding-box conversion\<close>

lemma sint_pred: "1 \<le> sint (w::go_int) \<Longrightarrow> sint (w - 1) = sint w - 1"
proof -
  assume a: "1 \<le> sint w"
  have lt: "sint w < 2 ^ 63" using sint_lt [of w] by simp
  have "sint (w - 1) = signed_take_bit 63 (sint w - 1)"
    by (simp add: sint_word_ariths)
  also have "\<dots> = sint w - 1"
    using a lt by (intro signed_take_bit_int_eq_self) simp_all
  finally show ?thesis .
qed

lemma Clamp_sint:
  "sint (Clamp v lo hi) =
     (if sint v < sint lo then sint lo else if sint hi < sint v then sint hi else sint v)"
  by (simp add: Clamp_def word_sless_alt)

subsection \<open>Division of integers, truncated and rounded\<close>

lemma half_floor:
  fixes A B :: int
  assumes "0 \<le> A" "0 < B"
  shows "\<lfloor>(of_int A :: rat) / of_int B + 1 / 2\<rfloor> = A div B + (if 2 * (A mod B) < B then 0 else 1)"
proof -
  let ?m = "A mod B"
  have m: "0 \<le> ?m" "?m < B" using assms by simp_all
  have "(of_int A :: rat) / of_int B + 1 / 2 = of_int (2 * A + B) / of_int (2 * B)"
    using assms by (simp add: field_simps)
  then have "\<lfloor>(of_int A :: rat) / of_int B + 1 / 2\<rfloor> = (2 * A + B) div (2 * B)"
    by (simp only: floor_divide_of_int_eq)
  also have "2 * A + B = (2 * ?m + B) + (2 * B) * (A div B)"
  proof -
    have "A = ?m + B * (A div B)" by simp
    then have "2 * A = 2 * (?m + B * (A div B))" by (rule arg_cong)
    then show ?thesis by (simp only: distrib_left mult.assoc add.assoc add.commute add.left_commute mult.left_commute)
  qed
  also have "\<dots> div (2 * B) = A div B + (2 * ?m + B) div (2 * B)"
    using assms by (subst div_mult_self2) simp_all
  also have "(2 * ?m + B) div (2 * B) = (if 2 * ?m < B then 0 else 1)"
  proof (cases "2 * ?m < B")
    case True
    then show ?thesis using m by (simp add: div_pos_pos_trivial)
  next
    case False
    then have "(2 * ?m + B) div (2 * B) = (2 * ?m + B - 2 * B) div (2 * B) + 1"
      using assms by (subst div_pos_geq) simp_all
    also have "(2 * ?m + B - 2 * B) div (2 * B) = 0"
      using False m by (intro div_pos_pos_trivial) simp_all
    finally show ?thesis using False by simp
  qed
  finally show ?thesis .
qed

lemma floor_half: "\<lfloor>1 / 2 :: rat\<rfloor> = 0"
  by (rule floor_unique) simp_all

lemma trunc0_abs: "trunc0 q = (if q < 0 then - \<lfloor>\<bar>q\<bar>\<rfloor> else \<lfloor>\<bar>q\<bar>\<rfloor>)"
  by (simp add: trunc0_def abs_if)

lemma roundHalfAway_abs:
  "roundHalfAway q = (if q < 0 then - \<lfloor>\<bar>q\<bar> + 1 / 2\<rfloor> else \<lfloor>\<bar>q\<bar> + 1 / 2\<rfloor>)"
  by (simp add: roundHalfAway_def abs_if)

lemma quot_neg:
  fixes a b :: int
  assumes "b \<noteq> 0"
  shows "((of_int a :: rat) / of_int b < 0) = (sgn a * sgn b < 0)"
  using assms by (auto simp add: divide_less_0_iff sgn_if mult_less_0_iff)

lemma quot_abs:
  fixes a b :: int
  shows "\<bar>(of_int a :: rat) / of_int b\<bar> = of_int \<bar>a\<bar> / of_int \<bar>b\<bar>"
  by simp

lemma tquot_trunc0:
  assumes "b \<noteq> 0"
  shows "tquot a b = trunc0 (of_int a / of_int b)"
proof -
  let ?q = "(of_int a :: rat) / of_int b"
  have f: "\<lfloor>\<bar>?q\<bar>\<rfloor> = \<bar>a\<bar> div \<bar>b\<bar>"
    by (simp only: quot_abs floor_divide_of_int_eq)
  have t: "trunc0 ?q = (if ?q < 0 then - \<lfloor>\<bar>?q\<bar>\<rfloor> else \<lfloor>\<bar>?q\<bar>\<rfloor>)"
    by (rule trunc0_abs)
  show ?thesis
  proof (cases "a = 0")
    case True
    then show ?thesis by (simp add: tquot_def trunc0_def)
  next
    case False
    then show ?thesis
      unfolding t f quot_neg [OF assms] tquot_def using assms
      by (auto simp add: sgn_if)
  qed
qed

lemma round_quot:
  fixes a b :: int
  assumes "b \<noteq> 0"
  shows "(if 2 * \<bar>a - tquot a b * b\<bar> < \<bar>b\<bar> then tquot a b
          else if sgn a * sgn b < 0 then tquot a b - 1 else tquot a b + 1)
         = roundHalfAway (of_int a / of_int b)"
proof -
  let ?q = "(of_int a :: rat) / of_int b"
  let ?A = "\<bar>a\<bar>" and ?B = "\<bar>b\<bar>"
  have B: "0 < ?B" using assms by simp
  have r: "\<bar>a - tquot a b * b\<bar> = ?A mod ?B"
  proof -
    have "tquot a b * b = sgn a * (?A div ?B) * ?B"
      using assms by (simp add: tquot_def sgn_if)
    then have "a - tquot a b * b = sgn a * (?A - (?A div ?B) * ?B)"
      by (simp add: algebra_simps sgn_if)
    also have "?A - (?A div ?B) * ?B = ?A mod ?B"
      by (simp add: minus_div_mult_eq_mod)
    finally have "\<bar>a - tquot a b * b\<bar> = \<bar>sgn a * (?A mod ?B)\<bar>" by simp
    also have "\<dots> = ?A mod ?B"
      using B by (cases "a = 0") (simp_all add: abs_mult)
    finally show ?thesis .
  qed
  have h: "\<lfloor>\<bar>?q\<bar> + 1 / 2\<rfloor> = ?A div ?B + (if 2 * (?A mod ?B) < ?B then 0 else 1)"
    unfolding quot_abs using B by (intro half_floor) simp_all
  have rh: "roundHalfAway ?q = (if ?q < 0 then - \<lfloor>\<bar>?q\<bar> + 1 / 2\<rfloor> else \<lfloor>\<bar>?q\<bar> + 1 / 2\<rfloor>)"
    by (rule roundHalfAway_abs)
  show ?thesis
  proof (cases "a = 0")
    case True
    then show ?thesis using assms by (simp add: tquot_def roundHalfAway_def floor_half)
  next
    case False
    have "(if 2 * (?A mod ?B) < ?B then tquot a b
           else if sgn a * sgn b < 0 then tquot a b - 1 else tquot a b + 1)
          = (if sgn a * sgn b < 0 then - (?A div ?B + (if 2 * (?A mod ?B) < ?B then 0 else 1))
             else ?A div ?B + (if 2 * (?A mod ?B) < ?B then 0 else 1))"
      using False assms by (simp add: tquot_def sgn_if)
    then show ?thesis
      by (simp only: r rh h quot_neg [OF assms])
  qed
qed


subsection \<open>The decimal operations at the arguments of the conversion\<close>

lemma sint32_range: "- 2147483648 \<le> sint (x :: 32 word)" "sint (x :: 32 word) < 2147483648"
  using sint_ge [of x] sint_lt [of x] by simp_all

lemma sint_add16:
  assumes "sint (x :: 32 word) \<le> 2147483631"
  shows "sint (x + 16) = sint x + 16"
proof -
  have "sint (x + 16) = signed_take_bit 31 (sint x + 16)"
    by (simp add: sint_word_ariths)
  also have "\<dots> = sint x + 16"
    using assms sint32_range(1) [of x] by (intro signed_take_bit_int_eq_self) simp_all
  finally show ?thesis .
qed

lemma decRat_NewFromInt: "decRat (dec_NewFromInt s) = of_int (sint s)"
  by (simp add: decRat_def dec_NewFromInt_def)

lemma dec_Mul_NewFromInt:
  "dec_Mul f (dec_NewFromInt w) = Inr \<lparr>val = val f * sint w, expo = expo f\<rparr>"
  using sint32_range [of "expo f"]
  by (simp add: dec_Mul_def dec_NewFromInt_def inInt32_def)

lemma decRat_Mul: "decRat \<lparr>val = v * w, expo = x\<rparr> = decRat \<lparr>val = v, expo = x\<rparr> * of_int w"
  by (simp add: decRat_def)

lemma quoDen_nonzero: "s \<noteq> 0 \<Longrightarrow> quoDen m s \<noteq> 0"
  by (simp add: quoDen_def)

lemma ratio_gen:
  fixes v s x :: int and p :: nat
  assumes "s \<noteq> 0"
  shows "(of_int (if x + int p < 0 then v else v * 10 ^ nat (x + int p)) :: rat)
           / of_int (if x + int p < 0 then s * 10 ^ nat (- (x + int p)) else s)
         = (if 0 \<le> x then of_int v * 10 ^ nat x else of_int v / 10 ^ nat (- x)) / of_int s * 10 ^ p"
proof -
  consider (a) "x + int p < 0" | (b) "0 \<le> x" | (c) "x < 0" "0 \<le> x + int p" by linarith
  then show ?thesis
  proof cases
    case a
    then have "nat (- x) = nat (- (x + int p)) + p" by simp
    then have "(10::rat) ^ nat (- x) = 10 ^ nat (- (x + int p)) * 10 ^ p"
      by (simp only: power_add)
    then show ?thesis using a assms by simp
  next
    case b
    then have "nat (x + int p) = nat x + p" by simp
    then have "(10::rat) ^ nat (x + int p) = 10 ^ nat x * 10 ^ p"
      by (simp only: power_add)
    then show ?thesis using b assms by simp
  next
    case c
    then have "p = nat (x + int p) + nat (- x)" by simp
    then have "(10::rat) ^ p = 10 ^ (nat (x + int p) + nat (- x))" by simp
    then have "(10::rat) ^ p = 10 ^ nat (x + int p) * 10 ^ nat (- x)"
      by (simp only: power_add)
    then show ?thesis using c assms by simp
  qed
qed

lemma quo_ratio:
  assumes "s \<noteq> 0"
  shows "(of_int (quoNum m) :: rat) / of_int (quoDen m s) = decRat m / of_int s * 10 ^ 16"
  using ratio_gen [OF assms, of "sint (expo m)" 16 "val m"]
  by (simp only: quoNum_def quoDen_def decRat_def of_nat_numeral)

lemma dec_QuoRem_NewFromInt:
  assumes "sint s \<noteq> 0" "sint (expo m) \<le> 2147483631"
  shows "dec_QuoRem m (dec_NewFromInt s) 16 =
           Inr (\<lparr>val = tquot (quoNum m) (quoDen m (sint s)), expo = - 16\<rparr>,
                \<lparr>val = quoNum m - tquot (quoNum m) (quoDen m (sint s)) * quoDen m (sint s),
                 expo = (if sint (expo m) + 16 < 0 then expo m else - 16)\<rparr>)"
  using assms sint32_range [of "expo m"]
  by (simp add: dec_QuoRem_def dec_NewFromInt_def inInt32_def quoNum_def quoDen_def Let_def)

lemma remainder_small:
  assumes "sint s \<noteq> 0" "sint (expo m) \<le> 2147483631"
  shows "(decRat \<lparr>val = 2 * \<bar>r\<bar>,
                   expo = (if sint (expo m) + 16 < 0 then expo m else - 16) + 16\<rparr>
            < \<bar>decRat (dec_NewFromInt s)\<bar>)
         = (2 * \<bar>r\<bar> < \<bar>quoDen m (sint s)\<bar>)"
proof -
  have d: "\<bar>decRat (dec_NewFromInt s)\<bar> = (of_int \<bar>sint s\<bar> :: rat)"
    by (simp add: decRat_NewFromInt)
  show ?thesis
  proof (cases "sint (expo m) + 16 < 0")
    case True
    let ?n = "nat (- (sint (expo m) + 16))"
    have e: "sint (expo m + 16) = sint (expo m) + 16" using assms(2) by (rule sint_add16)
    have l: "decRat \<lparr>val = 2 * \<bar>r\<bar>, expo = expo m + 16\<rparr> = of_int (2 * \<bar>r\<bar>) / 10 ^ ?n"
      using True by (simp add: decRat_def e)
    have "(decRat \<lparr>val = 2 * \<bar>r\<bar>, expo = expo m + 16\<rparr> < \<bar>decRat (dec_NewFromInt s)\<bar>)
            = ((of_int (2 * \<bar>r\<bar>) :: rat) / 10 ^ ?n < of_int \<bar>sint s\<bar>)"
      by (simp only: d l)
    also have "\<dots> = ((of_int (2 * \<bar>r\<bar>) :: rat) < of_int \<bar>sint s\<bar> * 10 ^ ?n)"
      by (rule pos_divide_less_eq) simp
    also have "\<dots> = ((of_int (2 * \<bar>r\<bar>) :: rat) < of_int (\<bar>sint s\<bar> * 10 ^ ?n))"
      by (simp only: of_int_mult of_int_power of_int_numeral)
    also have "\<dots> = (2 * \<bar>r\<bar> < \<bar>sint s\<bar> * 10 ^ ?n)"
      by (simp only: of_int_less_iff)
    finally show ?thesis using True by (simp add: quoDen_def abs_mult)
  next
    case False
    have l: "decRat \<lparr>val = 2 * \<bar>r\<bar>, expo = 0\<rparr> = of_int (2 * \<bar>r\<bar>)"
      by (simp add: decRat_def)
    have "(decRat \<lparr>val = 2 * \<bar>r\<bar>, expo = 0\<rparr> < \<bar>decRat (dec_NewFromInt s)\<bar>)
            = ((of_int (2 * \<bar>r\<bar>) :: rat) < of_int \<bar>sint s\<bar>)"
      by (simp only: d l)
    also have "\<dots> = (2 * \<bar>r\<bar> < \<bar>sint s\<bar>)"
      by (simp only: of_int_less_iff)
    finally show ?thesis using False by (simp add: quoDen_def)
  qed
qed

lemma quo_sgn: "sgn (quoNum m) * sgn (quoDen m s) = sgn (val m) * sgn s"
  by (simp add: quoNum_def quoDen_def sgn_mult)

lemma dec_Div_NewFromInt:
  assumes "sint s \<noteq> 0" "sint (expo m) \<le> 2147483631"
  shows "dec_Div m (dec_NewFromInt s) =
           Inr \<lparr>val = roundHalfAway (decRat m / of_int (sint s) * 10 ^ 16), expo = - 16\<rparr>"
proof -
  let ?a = "quoNum m" and ?b = "quoDen m (sint s)"
  have b: "?b \<noteq> 0" using assms(1) by (rule quoDen_nonzero)
  have v: "val (dec_NewFromInt s) = sint s" by (simp add: dec_NewFromInt_def)
  have "dec_Div m (dec_NewFromInt s) =
          Inr \<lparr>val = (if 2 * \<bar>?a - tquot ?a ?b * ?b\<bar> < \<bar>?b\<bar> then tquot ?a ?b
                      else if sgn ?a * sgn ?b < 0 then tquot ?a ?b - 1 else tquot ?a ?b + 1),
               expo = - 16\<rparr>"
    by (simp add: dec_Div_def dec_DivRound_def DivisionPrecision_def
        dec_QuoRem_NewFromInt [OF assms] remainder_small [OF assms] Let_def v quo_sgn)
  then show ?thesis
    by (simp only: round_quot [OF b] quo_ratio [OF assms(1)])
qed

lemma dec_IntPart_16:
  "dec_IntPart \<lparr>val = v, expo = - 16\<rparr> = word_of_int (trunc0 (of_int v / 10 ^ 16))"
proof -
  have "tquot v (10 ^ 16) = trunc0 (of_int v / of_int (10 ^ 16))"
    by (rule tquot_trunc0) simp
  then show ?thesis by (simp add: dec_IntPart_def)
qed

lemma scaled_value:
  assumes "sint scale \<noteq> 0" "sint (expo f) \<le> 2147483631"
  shows "scaled f (dec_NewFromInt w) (dec_NewFromInt scale) =
           Inr (word_of_int (scaleCoord (decRat f) (sint w) (sint scale)))"
proof -
  let ?m = "\<lparr>val = val f * sint w, expo = expo f\<rparr>"
  have e: "sint (expo ?m) \<le> 2147483631" using assms(2) by simp
  have r: "decRat ?m = decRat f * of_int (sint w)" by (simp add: decRat_def)
  show ?thesis
    by (simp add: scaled_def dec_Mul_NewFromInt dec_Div_NewFromInt [OF assms(1) e]
        dec_IntPart_16 scaleCoord_def r)
qed


lemma scaled_coordinate:
  assumes "1 \<le> sint scale" "sint (expo (parsed NewFromString s)) \<le> 2147483631"
  shows "scaled (parsed NewFromString s) (dec_NewFromInt w) (dec_NewFromInt scale) =
           Inr (coordinate NewFromString s w scale)"
proof -
  have "sint scale \<noteq> 0" using assms(1) by simp
  then show ?thesis unfolding coordinate_def using assms(2) by (rule scaled_value)
qed

lemma scaled_overflow:
  assumes "sint scale \<noteq> 0" "2147483631 < sint (expo f)"
  shows "scaled f (dec_NewFromInt w) (dec_NewFromInt scale) = Inl QuoRemOverflow"
proof -
  have "dec_QuoRem \<lparr>val = val f * sint w, expo = expo f\<rparr> (dec_NewFromInt scale) 16
          = Inl QuoRemOverflow"
    using assms by (simp add: dec_QuoRem_def dec_NewFromInt_def inInt32_def Let_def)
  then show ?thesis
    by (simp add: scaled_def dec_Mul_NewFromInt dec_Div_def dec_DivRound_def
        DivisionPrecision_def)
qed

subsection \<open>The tests of the repository, and a few more inputs\<close>

lemma DenormalizeBbox_BasicSquare:
  "DenormalizeBbox testParser ''0'' ''0'' ''999'' ''999'' 1000 1000 1000 = Inr (0, 0, 999, 999)"
  by code_simp

lemma DenormalizeBbox_RectFull:
  "DenormalizeBbox testParser ''0'' ''0'' ''999'' ''999'' 1920 1080 1000 = Inr (0, 0, 1918, 1078)"
  by code_simp

lemma DenormalizeBbox_OrderSwap:
  "DenormalizeBbox testParser ''800'' ''300'' ''200'' ''100'' 1000 500 1000 = Inr (200, 50, 800, 150)"
  by code_simp

lemma DenormalizeBbox_Clamp:
  "DenormalizeBbox testParser ''1200'' ''-10'' ''2000'' ''1500'' 640 480 1000 = Inr (639, 0, 639, 479)"
  by code_simp

lemma DenormalizeBbox_MidPoints:
  "DenormalizeBbox testParser ''500'' ''500'' ''750'' ''750'' 1920 1080 1000 = Inr (960, 540, 1440, 810)"
  by code_simp

lemma DenormalizeBbox_fractions:
  "DenormalizeBbox testParser ''333.335'' ''-0.5'' ''2e2'' ''500'' 3000 7 1000 = Inr (600, 0, 1000, 3)"
  by code_simp

lemma DenormalizeBbox_rounding:
  "DenormalizeBbox testParser ''0.99999999999999995'' ''0'' ''0.99999999999999995'' ''0'' 5 5 5
     = Inr (1, 0, 1, 0)"
  by code_simp

lemma DenormalizeBbox_zero_scale:
  "DenormalizeBbox testParser ''0'' ''0'' ''999'' ''999'' 1920 1080 0 = Inl DivisionByZero"
  by code_simp

subsection \<open>Bounds and values of the coordinates\<close>

text \<open>
  Claim C10, as stated, fails: with a width, a height and a scale that are at least 1,
  \<^verbatim>\<open>DenormalizeBbox\<close> returns nothing when a string is parsed to a decimal whose
  exponent is above \<open>2^31 - 17\<close>, as the library parses \<^verbatim>\<open>0e2147483647\<close>: the division
  by the scale panics with \<^verbatim>\<open>overflow in decimal QuoRem\<close>.
\<close>

theorem DenormalizeBbox_exponent_counterexample:
  "1 \<le> sint (1920 :: go_int) \<and> 1 \<le> sint (1080 :: go_int) \<and> 1 \<le> sint (1000 :: go_int) \<and>
   testParser ''0e2147483647'' = Inr \<lparr>val = 0, expo = 2147483647\<rparr> \<and>
   DenormalizeBbox testParser ''0e2147483647'' ''0'' ''999'' ''999'' 1920 1080 1000
     = Inl QuoRemOverflow"
  by code_simp

text \<open>
  Claim C10, amended. For a width, a height and a scale that are all at least 1, and four
  strings that the decimal parser gives exponents of at most \<open>2^31 - 17\<close> (a string that
  does not parse counts as zero; the caller in \<^verbatim>\<open>cmd/run.go\<close> formats floats with
  \<^verbatim>\<open>'f'\<close>, so its strings have no exponent part), \<^verbatim>\<open>DenormalizeBbox\<close> returns (it does
  not panic) four coordinates with \<open>0 \<le> x1 \<le> x2 \<le> width - 1\<close> and
  \<open>0 \<le> y1 \<le> y2 \<le> height - 1\<close>. They are the scaled coordinates, each pair put in order
  and then clamped into \<open>[0, extent - 1]\<close>, where the scaled coordinate of a string is the
  parsed number times the extent over the scale, rounded half away from zero to 16
  decimal places, then cut to its integer part (\<^const>\<open>coordinate\<close>).
\<close>

theorem DenormalizeBbox_amended:
  fixes NewFromString :: "string \<Rightarrow> 'e + Decimal"
  assumes "1 \<le> sint width" "1 \<le> sint height" "1 \<le> sint scale"
    and "sint (expo (parsed NewFromString x1s)) \<le> 2147483631"
    and "sint (expo (parsed NewFromString y1s)) \<le> 2147483631"
    and "sint (expo (parsed NewFromString x2s)) \<le> 2147483631"
    and "sint (expo (parsed NewFromString y2s)) \<le> 2147483631"
  defines "a \<equiv> coordinate NewFromString x1s width scale"
    and "b \<equiv> coordinate NewFromString y1s height scale"
    and "c \<equiv> coordinate NewFromString x2s width scale"
    and "d \<equiv> coordinate NewFromString y2s height scale"
  shows "\<exists>x1 y1 x2 y2.
           DenormalizeBbox NewFromString x1s y1s x2s y2s width height scale = Inr (x1, y1, x2, y2) \<and>
           x1 = Clamp (if c <s a then c else a) 0 (width - 1) \<and>
           x2 = Clamp (if c <s a then a else c) 0 (width - 1) \<and>
           y1 = Clamp (if d <s b then d else b) 0 (height - 1) \<and>
           y2 = Clamp (if d <s b then b else d) 0 (height - 1) \<and>
           0 \<le> sint x1 \<and> sint x1 \<le> sint x2 \<and> sint x2 \<le> sint width - 1 \<and>
           0 \<le> sint y1 \<and> sint y1 \<le> sint y2 \<and> sint y2 \<le> sint height - 1"
proof -
  have a: "scaled (parsed NewFromString x1s) (dec_NewFromInt width) (dec_NewFromInt scale) = Inr a"
    unfolding a_def using assms(3,4) by (rule scaled_coordinate)
  have b: "scaled (parsed NewFromString y1s) (dec_NewFromInt height) (dec_NewFromInt scale) = Inr b"
    unfolding b_def using assms(3,5) by (rule scaled_coordinate)
  have c: "scaled (parsed NewFromString x2s) (dec_NewFromInt width) (dec_NewFromInt scale) = Inr c"
    unfolding c_def using assms(3,6) by (rule scaled_coordinate)
  have d: "scaled (parsed NewFromString y2s) (dec_NewFromInt height) (dec_NewFromInt scale) = Inr d"
    unfolding d_def using assms(3,7) by (rule scaled_coordinate)
  have w: "sint (width - 1) = sint width - 1" and h: "sint (height - 1) = sint height - 1"
    using assms(1,2) by (simp_all add: sint_pred)
  show ?thesis
    using assms(1,2)
    by (simp add: DenormalizeBbox_def Let_def a b c d Clamp_sint word_sless_alt w h)
qed

theorem DenormalizeBbox_amended_witness:
  "1 \<le> sint (1920 :: go_int) \<and> 1 \<le> sint (1080 :: go_int) \<and> 1 \<le> sint (1000 :: go_int) \<and>
   sint (expo (parsed testParser ''500'')) \<le> 2147483631 \<and>
   sint (expo (parsed testParser ''750'')) \<le> 2147483631 \<and>
   DenormalizeBbox testParser ''500'' ''500'' ''750'' ''750'' 1920 1080 1000
     = Inr (960, 540, 1440, 810)"
proof -
  have h: "1 \<le> sint (1920 :: go_int)" "1 \<le> sint (1080 :: go_int)" "1 \<le> sint (1000 :: go_int)"
    by simp_all
  have e: "sint (expo (parsed testParser ''500'')) \<le> 2147483631"
    "sint (expo (parsed testParser ''750'')) \<le> 2147483631"
    by code_simp+
  have v: "coordinate testParser ''500'' 1920 1000 = 960"
    "coordinate testParser ''500'' 1080 1000 = 540"
    "coordinate testParser ''750'' 1920 1000 = 1440"
    "coordinate testParser ''750'' 1080 1000 = 810"
    by code_simp+
  have k: "Clamp 960 0 (1920 - 1) = 960" "Clamp 1440 0 (1920 - 1) = 1440"
    "Clamp 540 0 (1080 - 1) = 540" "Clamp 810 0 (1080 - 1) = 810"
    "\<not> (1440 :: go_int) <s 960" "\<not> (810 :: go_int) <s 540"
    by code_simp+
  from DenormalizeBbox_amended [OF h e(1) e(1) e(2) e(2)]
  have "DenormalizeBbox testParser ''500'' ''500'' ''750'' ''750'' 1920 1080 1000
          = Inr (960, 540, 1440, 810)"
    unfolding v by (auto simp only: k if_False)
  then show ?thesis using h e by blast
qed

end
